theory Spec2Isabelle
  imports Complex_Main "HOL-Library.Word"
begin

section \<open>The websocket hub of HibiscusIM (pkg/websocket)\<close>

text \<open>
  A shallow embedding of \<^verbatim>\<open>pkg/websocket/websocket.go\<close> and
  \<^verbatim>\<open>pkg/websocket/connection.go\<close>.

  \<^item> Go's \<^verbatim>\<open>int64\<close> (and \<^verbatim>\<open>time.Duration\<close>, a count of nanoseconds) is a
    64-bit word read through \<open>sint\<close>; Go's \<^verbatim>\<open>int\<close> is an \<open>int\<close>.
  \<^item> A \<^verbatim>\<open>*Connection\<close> is an address into a store of connection objects, so that the
    hub's maps and the callers share the objects as the pointers do.
  \<^item> A Go map is a HOL map; a \<^verbatim>\<open>range\<close> loop over a map takes the order in which Go
    happens to yield the keys as a list.
  \<^item> A panic and a goroutine parked on a full channel are values of \<open>fault\<close>.
  \<^item> \<^verbatim>\<open>encoding/json\<close> is modelled on JSON documents: the text of a document is not
    modelled, and a serialized message is the document itself.
\<close>

subsection \<open>Machine integers and time\<close>

type_synonym int64 = "64 word"
type_synonym uint32 = "32 word"
type_synonym duration = int64

definition Millisecond :: int where
  "Millisecond = 1000000"

definition Second :: int where
  "Second = 1000000000"

definition maxDuration :: int where
  "maxDuration = 2 ^ 63 - 1"

definition minDuration :: int where
  "minDuration = - (2 ^ 63)"

text \<open>A \<^verbatim>\<open>time.Time\<close> is the number of nanoseconds since the epoch. \<^verbatim>\<open>t.Sub(u)\<close>
  saturates at the largest and the smallest duration.\<close>

type_synonym time = int

definition time_Sub :: "time \<Rightarrow> time \<Rightarrow> int" where
  "time_Sub t u =
     (if t - u > maxDuration then maxDuration
      else if t - u < minDuration then minDuration
      else t - u)"

text \<open>\<^verbatim>\<open>t.Unix()\<close>: whole seconds since the epoch, as an \<^verbatim>\<open>int64\<close>.\<close>

definition time_Unix :: "time \<Rightarrow> int64" where
  "time_Unix t = word_of_int (t div Second)"

subsection \<open>JSON documents and dynamically typed payloads\<close>

text \<open>A JSON document. \<open>JInt\<close> is a number written as an integer, \<open>JFloat\<close> any other
  number, by its value.\<close>

datatype json =
    JNull
  | JBool bool
  | JInt int
  | JFloat real
  | JStr string
  | JArr "json list"
  | JObj "(string \<times> json) list"

text \<open>The value held by an \<^verbatim>\<open>interface{}\<close>. The first six are the dynamic types that
  \<^verbatim>\<open>json.Unmarshal\<close> stores in an interface value (nil, bool, float64, string,
  []interface{}, map[string]interface{}); \<open>DInt\<close> is a Go \<^verbatim>\<open>int\<close> and
  \<open>DUnsupported\<close> a value \<^verbatim>\<open>json.Marshal\<close> refuses (a channel, a function).\<close>

datatype dyn =
    DNil
  | DBool bool
  | DFloat real
  | DStr string
  | DSlice "dyn list"
  | DMap "(string \<times> dyn) list"
  | DInt int
  | DUnsupported


fun encodable :: "dyn \<Rightarrow> bool" where
  "encodable (DSlice xs) = list_all encodable xs"
| "encodable (DMap kvs) = list_all encodable (map snd kvs)"
| "encodable DUnsupported = False"
| "encodable d = True"

text \<open>A float64 is written as an integer when it has no fraction and is below \<open>10^21\<close>.\<close>

definition marshal_float :: "real \<Rightarrow> json" where
  "marshal_float r =
     (if of_int \<lfloor>r\<rfloor> = r \<and> \<bar>r\<bar> < 10 ^ 21 then JInt \<lfloor>r\<rfloor> else JFloat r)"

fun marshal_dyn :: "dyn \<Rightarrow> json" where
  "marshal_dyn DNil = JNull"
| "marshal_dyn (DBool b) = JBool b"
| "marshal_dyn (DFloat r) = marshal_float r"
| "marshal_dyn (DStr s) = JStr s"
| "marshal_dyn (DSlice xs) = JArr (map marshal_dyn xs)"
| "marshal_dyn (DMap kvs) = JObj (map (map_prod id marshal_dyn) kvs)"
| "marshal_dyn (DInt n) = JInt n"
| "marshal_dyn DUnsupported = JNull"

fun unmarshal_dyn :: "json \<Rightarrow> dyn" where
  "unmarshal_dyn JNull = DNil"
| "unmarshal_dyn (JBool b) = DBool b"
| "unmarshal_dyn (JInt n) = DFloat (of_int n)"
| "unmarshal_dyn (JFloat r) = DFloat r"
| "unmarshal_dyn (JStr s) = DStr s"
| "unmarshal_dyn (JArr xs) = DSlice (map unmarshal_dyn xs)"
| "unmarshal_dyn (JObj kvs) = DMap (map (map_prod id unmarshal_dyn) kvs)"

subsection \<open>Message\<close>

record message =
  Type :: string
  Data :: dyn
  Timestamp :: int64
  From :: string
  To :: string
  Group :: string

definition zero_Message :: message where
  "zero_Message = \<lparr>Type = [], Data = DNil, Timestamp = 0, From = [], To = [], Group = []\<rparr>"

text \<open>The tag \<^verbatim>\<open>omitempty\<close>: an empty string is left out of the object.\<close>

definition omitempty :: "string \<Rightarrow> string \<Rightarrow> (string \<times> json) list" where
  "omitempty k s = (if s = [] then [] else [(k, JStr s)])"

definition Marshal :: "message \<Rightarrow> json option" where
  "Marshal m =
     (if encodable (Data m)
      then Some (JObj ([(''type'', JStr (Type m)),
                        (''data'', marshal_dyn (Data m)),
                        (''timestamp'', JInt (sint (Timestamp m)))]
                       @ omitempty ''from'' (From m)
                       @ omitempty ''to'' (To m)
                       @ omitempty ''group'' (Group m)))
      else None)"

text \<open>A key selects a field when it is the field's name up to the case of its letters.\<close>

definition lower :: "char \<Rightarrow> char" where
  "lower c =
     (case map_of (zip ''ABCDEFGHIJKLMNOPQRSTUVWXYZ'' ''abcdefghijklmnopqrstuvwxyz'') c of
        Some l \<Rightarrow> l
      | None \<Rightarrow> c)"

fun dec_string :: "json \<Rightarrow> string \<Rightarrow> string option" where
  "dec_string (JStr s) old = Some s"
| "dec_string JNull old = Some old"
| "dec_string j old = None"

fun dec_int64 :: "json \<Rightarrow> int64 \<Rightarrow> int64 option" where
  "dec_int64 (JInt n) old =
     (if - (2 ^ 63) \<le> n \<and> n < 2 ^ 63 then Some (word_of_int n) else None)"
| "dec_int64 JNull old = Some old"
| "dec_int64 j old = None"

definition assign :: "string \<times> json \<Rightarrow> message \<Rightarrow> message option" where
  "assign kv m =
     (let f = map lower (fst kv); v = snd kv in
      if f = ''type'' then map_option (\<lambda>s. m\<lparr>Type := s\<rparr>) (dec_string v (Type m))
      else if f = ''data'' then Some (m\<lparr>Data := unmarshal_dyn v\<rparr>)
      else if f = ''timestamp''
        then map_option (\<lambda>t. m\<lparr>Timestamp := t\<rparr>) (dec_int64 v (Timestamp m))
      else if f = ''from'' then map_option (\<lambda>s. m\<lparr>From := s\<rparr>) (dec_string v (From m))
      else if f = ''to'' then map_option (\<lambda>s. m\<lparr>To := s\<rparr>) (dec_string v (To m))
      else if f = ''group'' then map_option (\<lambda>s. m\<lparr>Group := s\<rparr>) (dec_string v (Group m))
      else Some m)"

fun decode_fields :: "(string \<times> json) list \<Rightarrow> message \<Rightarrow> message option" where
  "decode_fields [] m = Some m"
| "decode_fields (kv # kvs) m =
     (case assign kv m of None \<Rightarrow> None | Some m' \<Rightarrow> decode_fields kvs m')"

text \<open>\<^verbatim>\<open>json.Unmarshal(data, &msg)\<close> with \<^verbatim>\<open>msg\<close> the zero Message; \<open>None\<close> is an
  error.\<close>

fun Unmarshal :: "json \<Rightarrow> message option" where
  "Unmarshal JNull = Some zero_Message"
| "Unmarshal (JObj kvs) = decode_fields kvs zero_Message"
| "Unmarshal j = None"

subsection \<open>Faults and channels\<close>

text \<open>\<open>Panic\<close> ends the program; \<open>Blocked\<close> is a goroutine parked on a channel
  operation that cannot proceed.\<close>

datatype fault = Panic string | Blocked

text \<open>A buffered channel: the elements waiting in the buffer, the capacity, whether it has
  been closed, and the elements receivers have taken from it so far.\<close>

record 'a chan =
  buf :: "'a list"
  cap :: nat
  is_closed :: bool
  received :: "'a list"

definition make_chan :: "int \<Rightarrow> fault + 'a chan" where
  "make_chan n =
     (if n < 0 then Inl (Panic ''makechan: size out of range'')
      else Inr \<lparr>buf = [], cap = nat n, is_closed = False, received = []\<rparr>)"

text \<open>What the goroutine that receives from a channel does while a sender looks at it:
  \<open>Receives t\<close> receives \<open>t\<close> nanoseconds from now (\<open>Receives 0\<close> is parked in the
  receive already), \<open>Absent\<close> does not receive.\<close>

datatype receiver = Absent | Receives nat

definition chan_put :: "'a \<Rightarrow> 'a chan \<Rightarrow> 'a chan" where
  "chan_put x ch = ch\<lparr>buf := buf ch @ [x]\<rparr>"

definition chan_take :: "'a chan \<Rightarrow> 'a chan" where
  "chan_take ch =
     (case buf ch of
        [] \<Rightarrow> ch
      | x # xs \<Rightarrow> ch\<lparr>buf := xs, received := received ch @ [x]\<rparr>)"

definition chan_handoff :: "'a \<Rightarrow> 'a chan \<Rightarrow> 'a chan" where
  "chan_handoff x ch = ch\<lparr>received := received ch @ [x]\<rparr>"

text \<open>Everything that ever entered the channel, in order.\<close>

definition chan_hist :: "'a chan \<Rightarrow> 'a list" where
  "chan_hist ch = received ch @ buf ch"

text \<open>A send can proceed at once when the buffer has room, or when the buffer is empty and
  the receiver is parked in the receive (the only way for an unbuffered channel). In
  the second case the receiver takes the element directly.\<close>

definition send_ready :: "'a chan \<Rightarrow> receiver \<Rightarrow> bool" where
  "send_ready ch r = (length (buf ch) < cap ch \<or> (buf ch = [] \<and> r = Receives 0))"

definition send_now :: "'a \<Rightarrow> 'a chan \<Rightarrow> 'a chan" where
  "send_now x ch = (if length (buf ch) < cap ch then chan_put x ch else chan_handoff x ch)"

text \<open>\<^verbatim>\<open>select { case ch <- x: default: }\<close>; \<open>None\<close> is the default branch.\<close>

definition select_send_default :: "'a \<Rightarrow> 'a chan \<Rightarrow> receiver \<Rightarrow> fault + 'a chan option" where
  "select_send_default x ch r =
     (if is_closed ch then Inl (Panic ''send on closed channel'')
      else if send_ready ch r then Inr (Some (send_now x ch))
      else Inr None)"

text \<open>A parked send goes through when the receiver receives: it takes the head of
  the buffer, which makes room for the element, or the element itself when there is no
  buffer.\<close>

definition after_wait :: "'a \<Rightarrow> 'a chan \<Rightarrow> 'a chan" where
  "after_wait x ch = (case buf ch of [] \<Rightarrow> chan_handoff x ch | y # ys \<Rightarrow> chan_put x (chan_take ch))"

text \<open>\<^verbatim>\<open>select { case ch <- x: case <-time.After(timeout): }\<close>: the channel after the send,
  or \<open>None\<close> when the timer fired, and the time the caller was parked.\<close>

definition select_send_timeout ::
  "'a \<Rightarrow> 'a chan \<Rightarrow> receiver \<Rightarrow> int \<Rightarrow> fault + ('a chan option \<times> int)" where
  "select_send_timeout x ch r timeout =
     (if is_closed ch then Inl (Panic ''send on closed channel'')
      else if send_ready ch r then Inr (Some (send_now x ch), 0)
      else (case r of
              Receives t \<Rightarrow>
                if int t < timeout
                then Inr (Some (after_wait x ch), int t)
                else Inr (None, timeout)
            | Absent \<Rightarrow> Inr (None, timeout)))"

text \<open>\<^verbatim>\<open>ch <- x\<close>: the sender is parked when the send cannot proceed at once.\<close>

definition chan_send :: "'a \<Rightarrow> 'a chan \<Rightarrow> receiver \<Rightarrow> fault + 'a chan" where
  "chan_send x ch r =
     (if is_closed ch then Inl (Panic ''send on closed channel'')
      else if send_ready ch r then Inr (send_now x ch)
      else Inl Blocked)"

definition chan_close :: "'a chan \<Rightarrow> fault + 'a chan" where
  "chan_close ch =
     (if is_closed ch then Inl (Panic ''close of closed channel'')
      else Inr (ch\<lparr>is_closed := True\<rparr>))"

text \<open>A loop whose body may fault.\<close>

fun foldE :: "('a \<Rightarrow> 's \<Rightarrow> fault + 's) \<Rightarrow> 'a list \<Rightarrow> 's \<Rightarrow> fault + 's" where
  "foldE f [] s = Inr s"
| "foldE f (x # xs) s = (case f x s of Inl e \<Rightarrow> Inl e | Inr s' \<Rightarrow> foldE f xs s')"

subsection \<open>Connection, Config and Hub\<close>

datatype transport = Open | Closed

type_synonym addr = nat

record connection =
  ID :: string
  UserID :: string
  Conn :: transport
  Send :: "json chan"
  LastPing :: time
  IsAlive :: bool
  Groups :: "string set"
  Metadata :: "string \<rightharpoonup> dyn"

record config =
  MaxConnections :: int64
  HeartbeatInterval :: duration
  ConnectionTimeout :: duration
  MessageBufferSize :: int
  ReadBufferSize :: int
  WriteBufferSize :: int
  MaxMessageSize :: int
  EnableCompression :: bool
  EnableMessageQueue :: bool
  MessageQueueSize :: int
  EnableCluster :: bool
  ClusterNodeID :: string
  ShardCount :: int
  BroadcastWorkerCount :: int
  DropOnFull :: bool
  CompressionLevel :: int
  CloseOnBackpressure :: bool
  SendTimeout :: duration
  EnableGlobalPing :: bool
  PingWorkerCount :: int

record broadcastJob =
  kind :: int
  shard :: int
  data :: json

definition broadcastAll :: int where
  "broadcastAll = 0"

text \<open>The Hub, together with the store of connection objects its pointers point into, the
  clock that \<^verbatim>\<open>time.Now()\<close> reads and the lines written to the log. \<open>ctx_done\<close> is the
  cancellation of the hub's context.\<close>

record hub =
  connections :: "string \<rightharpoonup> addr"
  userConnections :: "string \<rightharpoonup> string set"
  groupConnections :: "string \<rightharpoonup> string set"
  broadcast :: "message chan"
  connectionCount :: int64
  config :: config
  ctx_done :: bool
  shardCount :: int
  shardConns :: "(string \<rightharpoonup> addr) list"
  broadcastJobs :: "broadcastJob chan"
  pingJobs :: "int chan option"
  heap :: "addr \<Rightarrow> connection"
  clock :: time
  logs :: "string list"

text \<open>The goroutines around a call: the writer of each connection, the broadcast worker
  and the ping worker that would take the job of a shard, and the hub's control loop.\<close>

record env =
  writer :: "addr \<Rightarrow> receiver"
  worker :: "int \<Rightarrow> receiver"
  pinger :: "int \<Rightarrow> receiver"
  control :: receiver

definition logf :: "string \<Rightarrow> hub \<Rightarrow> hub" where
  "logf line h = h\<lparr>logs := logs h @ [line]\<rparr>"

definition upd_conn :: "addr \<Rightarrow> (connection \<Rightarrow> connection) \<Rightarrow> hub \<Rightarrow> hub" where
  "upd_conn a f h = h\<lparr>heap := (heap h)(a := f (heap h a))\<rparr>"

text \<open>\<^verbatim>\<open>conn.Conn.Close()\<close>\<close>

definition Conn_Close :: "addr \<Rightarrow> hub \<Rightarrow> hub" where
  "Conn_Close a h = upd_conn a (\<lambda>c. c\<lparr>Conn := Closed\<rparr>) h"

definition DefaultConfig :: config where
  "DefaultConfig =
     \<lparr>MaxConnections = 100000,
      HeartbeatInterval = 30000000000,
      ConnectionTimeout = 60000000000,
      MessageBufferSize = 256,
      ReadBufferSize = 1024,
      WriteBufferSize = 1024,
      MaxMessageSize = 512,
      EnableCompression = True,
      EnableMessageQueue = True,
      MessageQueueSize = 1000,
      EnableCluster = False,
      ClusterNodeID = [],
      ShardCount = 16,
      BroadcastWorkerCount = 32,
      DropOnFull = True,
      CompressionLevel = - 2,
      CloseOnBackpressure = False,
      SendTimeout = 50000000,
      EnableGlobalPing = False,
      PingWorkerCount = 8\<rparr>"

subsection \<open>Configuration validation and hub construction\<close>



text \<open>\<^verbatim>\<open>NewHub\<close>: the three repairs of the configuration, the channels and the shards. The
  hub it returns is running: the workers and the control loop are started
  unconditionally. The control loop begins with
  \<^verbatim>\<open>time.NewTicker(h.config.HeartbeatInterval)\<close>, which panics on an interval that is not
  positive. The store of connection objects and the time are the surroundings'.\<close>

definition NewHub :: "config option \<Rightarrow> (addr \<Rightarrow> connection) \<Rightarrow> time \<Rightarrow> fault + hub" where
  "NewHub c store now =
     (let config0 = (case c of None \<Rightarrow> DefaultConfig | Some cfg \<Rightarrow> cfg) in
      case make_chan (MessageQueueSize config0) of
        Inl e \<Rightarrow> Inl e
      | Inr bc \<Rightarrow>
          let config1 = (if ShardCount config0 \<le> 0 then config0\<lparr>ShardCount := 1\<rparr>
                         else config0);
              config2 = (if BroadcastWorkerCount config1 \<le> 0
                         then config1\<lparr>BroadcastWorkerCount := 1\<rparr> else config1)
          in (case make_chan (MessageQueueSize config2) of
                Inl e \<Rightarrow> Inl e
              | Inr jobs \<Rightarrow>
                  let config3 = (if EnableGlobalPing config2 \<and> PingWorkerCount config2 \<le> 0
                                 then config2\<lparr>PingWorkerCount := 1\<rparr> else config2)
                  in (case (if EnableGlobalPing config3
                            then map_sum id Some (make_chan (ShardCount config3))
                            else Inr None) of
                        Inl e \<Rightarrow> Inl e
                      | Inr pj \<Rightarrow>
                          if sint (HeartbeatInterval config3) \<le> 0
                          then Inl (Panic ''non-positive interval for NewTicker'')
                          else
                          Inr \<lparr>connections = Map.empty,
                               userConnections = Map.empty,
                               groupConnections = Map.empty,
                               broadcast = bc,
                               connectionCount = 0,
                               config = config3,
                               ctx_done = False,
                               shardCount = ShardCount config3,
                               shardConns = replicate (nat (ShardCount config3)) Map.empty,
                               broadcastJobs = jobs,
                               pingJobs = pj,
                               heap = store,
                               clock = now,
                               logs = []\<rparr>)))"

subsection \<open>Shards\<close>

text \<open>The 32-bit FNV-1a hash of \<^verbatim>\<open>hash/fnv\<close>.\<close>

definition fnv32a :: "string \<Rightarrow> uint32" where
  "fnv32a s = fold (\<lambda>c x. (xor x (of_char c)) * 16777619) s 2166136261"

definition shardIndex :: "hub \<Rightarrow> string \<Rightarrow> fault + nat" where
  "shardIndex h ident =
     (if shardCount h \<le> 1 then Inr 0
      else if (word_of_int (shardCount h) :: uint32) = 0
        then Inl (Panic ''integer divide by zero'')
      else Inr (unat (fnv32a ident mod (word_of_int (shardCount h) :: uint32))))"

text \<open>\<^verbatim>\<open>h.shardConns[sh][id] = conn\<close> and \<^verbatim>\<open>delete(h.shardConns[sh], id)\<close>\<close>

definition shard_update :: "nat \<Rightarrow> string \<Rightarrow> addr option \<Rightarrow> hub \<Rightarrow> fault + hub" where
  "shard_update sh ident v h =
     (if sh < length (shardConns h)
      then Inr (h\<lparr>shardConns := (shardConns h)[sh := ((shardConns h) ! sh)(ident := v)]\<rparr>)
      else Inl (Panic ''index out of range''))"

subsection \<open>Registration\<close>

text \<open>Adding an id to, and deleting it from, an index of id sets; an entry whose set
  becomes empty is deleted.\<close>

definition index_add :: "string \<Rightarrow> string \<Rightarrow> (string \<rightharpoonup> string set) \<Rightarrow> (string \<rightharpoonup> string set)" where
  "index_add k ident m =
     m(k \<mapsto> insert ident (case m k of None \<Rightarrow> {} | Some S \<Rightarrow> S))"

definition index_del :: "string \<Rightarrow> string \<Rightarrow> (string \<rightharpoonup> string set) \<Rightarrow> (string \<rightharpoonup> string set)" where
  "index_del k ident m =
     (case m k of
        None \<Rightarrow> m
      | Some S \<Rightarrow> if S - {ident} = {} then m(k := None) else m(k \<mapsto> S - {ident}))"

text \<open>\<open>groups\<close> is the order in which the loop over \<^verbatim>\<open>conn.Groups\<close> yields the groups.\<close>

definition registerConnection :: "addr \<Rightarrow> string list \<Rightarrow> hub \<Rightarrow> fault + hub" where
  "registerConnection a groups h =
     (let conn = heap h a in
      if sint (connectionCount h) \<ge> sint (MaxConnections (config h))
      then Inr (logf ''max connections reached'' (Conn_Close a h))
      else
        let h1 = h\<lparr>connections := (connections h)(ID conn \<mapsto> a),
                   connectionCount := connectionCount h + 1\<rparr>
        in (case shardIndex h1 (ID conn) of
              Inl e \<Rightarrow> Inl e
            | Inr sh \<Rightarrow>
                (case shard_update sh (ID conn) (Some a) h1 of
                   Inl e \<Rightarrow> Inl e
                 | Inr h2 \<Rightarrow>
                     let h3 = (if UserID conn \<noteq> []
                               then h2\<lparr>userConnections :=
                                         index_add (UserID conn) (ID conn) (userConnections h2)\<rparr>
                               else h2);
                         h4 = fold (\<lambda>g x. x\<lparr>groupConnections :=
                                               index_add g (ID conn) (groupConnections x)\<rparr>)
                                groups h3
                     in Inr (logf ''connection registered'' h4))))"

definition unregisterConnection :: "addr \<Rightarrow> string list \<Rightarrow> hub \<Rightarrow> fault + hub" where
  "unregisterConnection a groups h =
     (let conn = heap h a in
      case connections h (ID conn) of
        None \<Rightarrow> Inr h
      | Some registered \<Rightarrow>
          let h1 = h\<lparr>connections := (connections h)(ID conn := None),
                     connectionCount := connectionCount h - 1\<rparr>
          in (case shardIndex h1 (ID conn) of
                Inl e \<Rightarrow> Inl e
              | Inr sh \<Rightarrow>
                  (case shard_update sh (ID conn) None h1 of
                     Inl e \<Rightarrow> Inl e
                   | Inr h2 \<Rightarrow>
                       let h3 = (if UserID conn \<noteq> []
                                 then h2\<lparr>userConnections :=
                                           index_del (UserID conn) (ID conn) (userConnections h2)\<rparr>
                                 else h2);
                           h4 = fold (\<lambda>g x. x\<lparr>groupConnections :=
                                                 index_del g (ID conn) (groupConnections x)\<rparr>)
                                  groups h3
                       in (case chan_close (Send conn) of
                             Inl e \<Rightarrow> Inl e
                           | Inr ch \<Rightarrow>
                               Inr (logf ''connection unregistered''
                                     (upd_conn a (\<lambda>c. c\<lparr>Send := ch\<rparr>) h4))))))"

subsection \<open>Backpressure\<close>

text \<open>What \<^verbatim>\<open>trySend\<close> does when the message was not taken: the callback, then the
  optional close of the transport.\<close>

definition dropped :: "addr \<Rightarrow> (hub \<Rightarrow> hub) \<Rightarrow> hub \<Rightarrow> hub" where
  "dropped a onDrop h =
     (let h1 = onDrop h in
      if CloseOnBackpressure (config h1) then Conn_Close a h1 else h1)"

text \<open>The time the bounded wait lasts at most.\<close>

definition send_timeout :: "config \<Rightarrow> int" where
  "send_timeout cfg =
     (if sint (SendTimeout cfg) \<le> 0 then 50 * Millisecond else sint (SendTimeout cfg))"

definition trySend :: "addr \<Rightarrow> json \<Rightarrow> (hub \<Rightarrow> hub) \<Rightarrow> receiver \<Rightarrow> hub \<Rightarrow> fault + hub" where
  "trySend a payload onDrop r h =
     (if DropOnFull (config h)
      then (case select_send_default payload (Send (heap h a)) r of
              Inl e \<Rightarrow> Inl e
            | Inr (Some ch) \<Rightarrow> Inr (upd_conn a (\<lambda>c. c\<lparr>Send := ch\<rparr>) h)
            | Inr None \<Rightarrow> Inr (dropped a onDrop h))
      else (case select_send_timeout payload (Send (heap h a)) r (send_timeout (config h)) of
              Inl e \<Rightarrow> Inl e
            | Inr (Some ch, t) \<Rightarrow>
                Inr (upd_conn a (\<lambda>c. c\<lparr>Send := ch\<rparr>) (h\<lparr>clock := clock h + t\<rparr>))
            | Inr (None, t) \<Rightarrow> Inr (dropped a onDrop (h\<lparr>clock := clock h + t\<rparr>))))"

subsection \<open>Message routing\<close>

text \<open>The body of the loops of \<^verbatim>\<open>sendToUser\<close> and \<^verbatim>\<open>sendToGroup\<close>.\<close>

definition send_one ::
  "(string \<Rightarrow> string) \<Rightarrow> json \<Rightarrow> env \<Rightarrow> string \<Rightarrow> hub \<Rightarrow> fault + hub" where
  "send_one line payload e connID h =
     (case connections h connID of
        Some a \<Rightarrow>
          if IsAlive (heap h a)
          then trySend a payload (logf (line connID)) (writer e a) h
          else Inr h
      | None \<Rightarrow> Inr h)"

text \<open>\<open>ids\<close> is the order in which the loop yields the ids of the user's (the group's)
  set.\<close>

definition sendToUser :: "string \<Rightarrow> json \<Rightarrow> string list \<Rightarrow> env \<Rightarrow> hub \<Rightarrow> fault + hub" where
  "sendToUser userID payload ids e h =
     (case userConnections h userID of
        Some conns \<Rightarrow>
          foldE (send_one (\<lambda>connID. ''send buffer full: user '' @ userID @ '' connection '' @ connID)
                   payload e) ids h
      | None \<Rightarrow> Inr h)"

definition sendToGroup :: "string \<Rightarrow> json \<Rightarrow> string list \<Rightarrow> env \<Rightarrow> hub \<Rightarrow> fault + hub" where
  "sendToGroup g payload ids e h =
     (case groupConnections h g of
        Some conns \<Rightarrow>
          foldE (send_one (\<lambda>connID. ''send buffer full: group '' @ g @ '' connection '' @ connID)
                   payload e) ids h
      | None \<Rightarrow> Inr h)"

definition enqueue_job :: "json \<Rightarrow> env \<Rightarrow> int \<Rightarrow> hub \<Rightarrow> fault + hub" where
  "enqueue_job payload e i h =
     (case select_send_default \<lparr>kind = broadcastAll, shard = i, data = payload\<rparr>
             (broadcastJobs h) (worker e i) of
        Inl f \<Rightarrow> Inl f
      | Inr (Some ch) \<Rightarrow> Inr (h\<lparr>broadcastJobs := ch\<rparr>)
      | Inr None \<Rightarrow> Inr (logf ''broadcast job queue full, message dropped'' h))"

definition enqueueBroadcastAll :: "json \<Rightarrow> env \<Rightarrow> hub \<Rightarrow> fault + hub" where
  "enqueueBroadcastAll payload e h = foldE (enqueue_job payload e) [0..shardCount h - 1] h"

text \<open>The control loop's handling of a message taken from \<^verbatim>\<open>h.broadcast\<close>.\<close>

definition stamp :: "time \<Rightarrow> message \<Rightarrow> message" where
  "stamp now msg = (if Timestamp msg = 0 then msg\<lparr>Timestamp := time_Unix now\<rparr> else msg)"

definition dispatch :: "message \<Rightarrow> string list \<Rightarrow> env \<Rightarrow> hub \<Rightarrow> fault + hub" where
  "dispatch msg ids e h =
     (let message = stamp (clock h) msg
      in case Marshal message of
           None \<Rightarrow> Inr (logf ''message serialization failed'' h)
         | Some payload \<Rightarrow>
             if To message \<noteq> [] then sendToUser (To message) payload ids e h
             else if Group message \<noteq> [] then sendToGroup (Group message) payload ids e h
             else enqueueBroadcastAll payload e h)"

text \<open>A broadcast worker's handling of a job; \<open>ids\<close> is the order in which the loop over
  the shard yields its connections.\<close>

definition broadcast_one :: "json \<Rightarrow> env \<Rightarrow> nat \<Rightarrow> string \<Rightarrow> hub \<Rightarrow> fault + hub" where
  "broadcast_one payload e sh connID h =
     (case (shardConns h ! sh) connID of
        Some a \<Rightarrow>
          if IsAlive (heap h a)
          then trySend a payload (logf (''send buffer full: connection '' @ ID (heap h a)))
                 (writer e a) h
          else Inr h
      | None \<Rightarrow> Inr h)"

definition broadcastWorker :: "broadcastJob \<Rightarrow> string list \<Rightarrow> env \<Rightarrow> hub \<Rightarrow> fault + hub" where
  "broadcastWorker job ids e h =
     (if kind job = broadcastAll
      then if 0 \<le> shard job \<and> nat (shard job) < length (shardConns h)
           then foldE (broadcast_one (data job) e (nat (shard job))) ids h
           else Inl (Panic ''index out of range'')
      else Inr h)"

subsection \<open>Heartbeats\<close>

definition check_one :: "time \<Rightarrow> string \<Rightarrow> hub \<Rightarrow> hub" where
  "check_one now connID h =
     (case connections h connID of
        Some a \<Rightarrow>
          if time_Sub now (LastPing (heap h a)) > sint (ConnectionTimeout (config h))
          then Conn_Close a (upd_conn a (\<lambda>c. c\<lparr>IsAlive := False\<rparr>)
                 (logf (''heartbeat timeout: connection '' @ ID (heap h a)) h))
          else h
      | None \<Rightarrow> h)"

text \<open>\<open>ids\<close> is the order in which the loop over \<^verbatim>\<open>h.connections\<close> yields them.\<close>

definition checkHeartbeats :: "string list \<Rightarrow> hub \<Rightarrow> hub" where
  "checkHeartbeats ids h = fold (check_one (clock h)) ids h"

definition ping_job :: "env \<Rightarrow> int \<Rightarrow> hub \<Rightarrow> fault + hub" where
  "ping_job e i h =
     (case pingJobs h of
        None \<Rightarrow> Inr h
      | Some ch \<Rightarrow>
          (case select_send_default i ch (pinger e i) of
             Inl f \<Rightarrow> Inl f
           | Inr (Some ch') \<Rightarrow> Inr (h\<lparr>pingJobs := Some ch'\<rparr>)
           | Inr None \<Rightarrow> Inr h))"

text \<open>The control loop's handling of a tick of the heartbeat ticker.\<close>

definition tick :: "string list \<Rightarrow> env \<Rightarrow> hub \<Rightarrow> fault + hub" where
  "tick ids e h =
     (case (if EnableGlobalPing (config h) then foldE (ping_job e) [0..shardCount h - 1] h
            else Inr h) of
        Inl f \<Rightarrow> Inl f
      | Inr h1 \<Rightarrow> Inr (checkHeartbeats ids h1))"

text \<open>\<^verbatim>\<open>Hub.Close\<close>\<close>

definition Close :: "string list \<Rightarrow> hub \<Rightarrow> hub" where
  "Close ids h =
     logf ''hub closed''
       (fold (\<lambda>connID x. case connections x connID of Some a \<Rightarrow> Conn_Close a x | None \<Rightarrow> x)
          ids (h\<lparr>ctx_done := True\<rparr>))"

subsection \<open>Inbound frames\<close>

text \<open>\<^verbatim>\<open>data, _ := json.Marshal(response)\<close>: the error is ignored.\<close>

definition marshal_ignoring_error :: "message \<Rightarrow> json" where
  "marshal_ignoring_error m = (case Marshal m of Some j \<Rightarrow> j | None \<Rightarrow> JNull)"

text \<open>The answer a handler puts on the connection's own queue:
  \<^verbatim>\<open>select { case c.Send <- data: default: logrus.Warnf(...) }\<close>\<close>

definition reply :: "addr \<Rightarrow> message \<Rightarrow> env \<Rightarrow> hub \<Rightarrow> fault + hub" where
  "reply a response e h =
     (case select_send_default (marshal_ignoring_error response) (Send (heap h a))
             (writer e a) of
        Inl f \<Rightarrow> Inl f
      | Inr (Some ch) \<Rightarrow> Inr (upd_conn a (\<lambda>c. c\<lparr>Send := ch\<rparr>) h)
      | Inr None \<Rightarrow> Inr (logf (''send buffer full: connection '' @ ID (heap h a)) h))"

definition handlePing :: "addr \<Rightarrow> env \<Rightarrow> hub \<Rightarrow> fault + hub" where
  "handlePing a e h =
     reply a (zero_Message\<lparr>Type := ''pong'', Timestamp := time_Unix (clock h)\<rparr>) e
       (upd_conn a (\<lambda>c. c\<lparr>LastPing := clock h\<rparr>) h)"

definition handleJoinGroup :: "addr \<Rightarrow> message \<Rightarrow> env \<Rightarrow> hub \<Rightarrow> fault + hub" where
  "handleJoinGroup a msg e h =
     (case Data msg of
        DStr groupName \<Rightarrow>
          let h1 = upd_conn a (\<lambda>c. c\<lparr>Groups := insert groupName (Groups c)\<rparr>) h;
              h2 = h1\<lparr>groupConnections :=
                        index_add groupName (ID (heap h1 a)) (groupConnections h1)\<rparr>
          in (case reply a (zero_Message\<lparr>Type := ''group_joined'', Data := DStr groupName,
                                          Timestamp := time_Unix (clock h2)\<rparr>) e h2 of
                Inl f \<Rightarrow> Inl f
              | Inr h3 \<Rightarrow> Inr (logf ''user joined group'' h3))
      | _ \<Rightarrow> Inr (logf ''invalid group name'' h))"

definition handleLeaveGroup :: "addr \<Rightarrow> message \<Rightarrow> env \<Rightarrow> hub \<Rightarrow> fault + hub" where
  "handleLeaveGroup a msg e h =
     (case Data msg of
        DStr groupName \<Rightarrow>
          let h1 = upd_conn a (\<lambda>c. c\<lparr>Groups := Groups c - {groupName}\<rparr>) h;
              h2 = h1\<lparr>groupConnections :=
                        index_del groupName (ID (heap h1 a)) (groupConnections h1)\<rparr>
          in (case reply a (zero_Message\<lparr>Type := ''group_left'', Data := DStr groupName,
                                          Timestamp := time_Unix (clock h2)\<rparr>) e h2 of
                Inl f \<Rightarrow> Inl f
              | Inr h3 \<Rightarrow> Inr (logf ''user left group'' h3))
      | _ \<Rightarrow> Inr (logf ''invalid group name'' h))"

text \<open>\<^verbatim>\<open>c.Hub.broadcast <- &msg\<close>\<close>

definition post :: "message \<Rightarrow> env \<Rightarrow> hub \<Rightarrow> fault + hub" where
  "post msg e h =
     (case chan_send msg (broadcast h) (control e) of
        Inl f \<Rightarrow> Inl f
      | Inr ch \<Rightarrow> Inr (h\<lparr>broadcast := ch\<rparr>))"

definition handleChat :: "addr \<Rightarrow> message \<Rightarrow> env \<Rightarrow> hub \<Rightarrow> fault + hub" where
  "handleChat a msg e h =
     (case Data msg of
        DMap kvs \<Rightarrow>
          if To msg = [] \<and> Group msg = [] then Inr (logf ''chat message without target'' h)
          else post msg e h
      | _ \<Rightarrow> Inr (logf ''invalid chat data'' h))"

definition handleNotification :: "addr \<Rightarrow> message \<Rightarrow> env \<Rightarrow> hub \<Rightarrow> fault + hub" where
  "handleNotification a msg e h =
     (case Data msg of
        DMap kvs \<Rightarrow> post msg e h
      | _ \<Rightarrow> Inr (logf ''invalid notification data'' h))"

definition handleStatus :: "addr \<Rightarrow> message \<Rightarrow> env \<Rightarrow> hub \<Rightarrow> fault + hub" where
  "handleStatus a msg e h =
     reply a (zero_Message\<lparr>Type := ''status_updated'', Timestamp := time_Unix (clock h)\<rparr>) e
       (case Data msg of
          DMap statusData \<Rightarrow>
            upd_conn a (\<lambda>c. c\<lparr>Metadata := fold (\<lambda>kv m. m(fst kv \<mapsto> snd kv)) statusData
                                              (Metadata c)\<rparr>) h
        | _ \<Rightarrow> h)"

text \<open>A frame is the JSON document of its bytes, \<open>None\<close> when they are not JSON.
  \<open>decode_frame\<close> is \<^verbatim>\<open>json.Unmarshal(message, &msg)\<close> on the bytes.\<close>

definition decode_frame :: "json option \<Rightarrow> message option" where
  "decode_frame frame = (case frame of None \<Rightarrow> None | Some j \<Rightarrow> Unmarshal j)"

definition handleMessage :: "addr \<Rightarrow> json option \<Rightarrow> env \<Rightarrow> hub \<Rightarrow> fault + hub" where
  "handleMessage a frame e h =
     (case decode_frame frame of
        None \<Rightarrow> Inr (logf ''message parse failed'' h)
      | Some decoded \<Rightarrow>
          let msg = decoded\<lparr>From := UserID (heap h a)\<rparr> in
          if Type msg = ''ping'' then handlePing a e h
          else if Type msg = ''join_group'' then handleJoinGroup a msg e h
          else if Type msg = ''leave_group'' then handleLeaveGroup a msg e h
          else if Type msg = ''chat'' then handleChat a msg e h
          else if Type msg = ''notification'' then handleNotification a msg e h
          else if Type msg = ''status'' then handleStatus a msg e h
          else Inr (logf ''unknown message type'' h))"

subsection \<open>The states a hub goes through\<close>

text \<open>A hub starts as \<^verbatim>\<open>NewHub\<close> returns it. From then on the control loop registers,
  unregisters, dispatches and checks heartbeats; the readers handle frames; the HTTP
  handlers post messages; the workers take jobs; and the goroutines of the connections
  change the connection objects while time passes.\<close>

inductive reachable :: "hub \<Rightarrow> bool" where
  start: "NewHub c store now = Inr h \<Longrightarrow> reachable h"
| register: "reachable h \<Longrightarrow> registerConnection a groups h = Inr h' \<Longrightarrow> reachable h'"
| unregister: "reachable h \<Longrightarrow> unregisterConnection a groups h = Inr h' \<Longrightarrow> reachable h'"
| received: "reachable h \<Longrightarrow> reachable (h\<lparr>broadcast := chan_take (broadcast h)\<rparr>)"
| dispatched: "reachable h \<Longrightarrow> dispatch msg ids e h = Inr h' \<Longrightarrow> reachable h'"
| ticked: "reachable h \<Longrightarrow> tick ids e h = Inr h' \<Longrightarrow> reachable h'"
| frame: "reachable h \<Longrightarrow> handleMessage a fr e h = Inr h' \<Longrightarrow> reachable h'"
| posted: "reachable h \<Longrightarrow> post msg e h = Inr h' \<Longrightarrow> reachable h'"
| job_taken: "reachable h \<Longrightarrow> reachable (h\<lparr>broadcastJobs := chan_take (broadcastJobs h)\<rparr>)"
| worked: "reachable h \<Longrightarrow> broadcastWorker job ids e h = Inr h' \<Longrightarrow> reachable h'"
| surroundings: "reachable h \<Longrightarrow> reachable (h\<lparr>heap := store, clock := now\<rparr>)"
| closed: "reachable h \<Longrightarrow> reachable (Close ids h)"

subsection \<open>Notions used in the statements\<close>

text \<open>\<open>h'\<close> differs from \<open>h\<close> at most in the store of connection objects, the clock and
  the log: the maps, the counter, the configuration, the shards and the hub's channels
  are the same.\<close>

definition same_registry :: "hub \<Rightarrow> hub \<Rightarrow> bool" where
  "same_registry h h' = (h' = h\<lparr>heap := heap h', clock := clock h', logs := logs h'\<rparr>)"

text \<open>The connection map, the counter and the configuration are the same.\<close>

definition same_count :: "hub \<Rightarrow> hub \<Rightarrow> bool" where
  "same_count h h' =
     (connections h' = connections h \<and> connectionCount h' = connectionCount h \<and>
      config h' = config h)"

text \<open>What a delivery attempt under the backpressure policy makes of a connection: the
  payload is handed to its queue when the send can proceed at once; otherwise, in
  bounded-wait mode, it may get onto the queue after the writer has received; otherwise the
  payload is dropped and the transport is closed if close-on-backpressure is set.\<close>

definition attempted :: "config \<Rightarrow> receiver \<Rightarrow> json \<Rightarrow> connection \<Rightarrow> connection \<Rightarrow> bool" where
  "attempted cfg r p c c' =
     (if send_ready (Send c) r then c' = c\<lparr>Send := send_now p (Send c)\<rparr>
      else (\<not> DropOnFull cfg \<and> c' = c\<lparr>Send := after_wait p (Send c)\<rparr>) \<or>
           c' = (if CloseOnBackpressure cfg then c\<lparr>Conn := Closed\<rparr> else c))"


text \<open>The connection map is keyed by the ids of the connections; and the invariant of the
  user index: it holds an id under a user exactly when the connection registered under the
  id belongs to that user.\<close>

definition keyed_by_ID :: "hub \<Rightarrow> bool" where
  "keyed_by_ID h = (\<forall>i a. connections h i = Some a \<longrightarrow> ID (heap h a) = i)"

definition user_index_ok :: "hub \<Rightarrow> bool" where
  "user_index_ok h =
     (\<forall>u i. (case userConnections h u of None \<Rightarrow> False | Some S \<Rightarrow> i \<in> S) =
            (u \<noteq> [] \<and> (case connections h i of None \<Rightarrow> False
                         | Some a \<Rightarrow> UserID (heap h a) = u)))"

text \<open>The shard table as \<^verbatim>\<open>NewHub\<close> builds it: as many shards as the shard count, which
  is at least one and fits 32 bits.\<close>

definition shards_ok :: "hub \<Rightarrow> bool" where
  "shards_ok h =
     (1 \<le> shardCount h \<and> shardCount h < 2 ^ 32 \<and> length (shardConns h) = nat (shardCount h))"

text \<open>The payload is a JSON object: the type assertion
  \<^verbatim>\<open>msg.Data.(map[string]interface{})\<close> succeeds.\<close>

fun is_object :: "dyn \<Rightarrow> bool" where
  "is_object (DMap kvs) = True"
| "is_object d = False"

text \<open>The connection map is finite, the counter is at least the number of its entries,
  and the counter is at most the configured maximum (at most zero when the maximum is
  negative).\<close>

definition within_capacity :: "hub \<Rightarrow> bool" where
  "within_capacity h =
     (finite (dom (connections h)) \<and>
      int (card (dom (connections h))) \<le> sint (connectionCount h) \<and>
      sint (connectionCount h) \<le> max 0 (sint (MaxConnections (config h))))"

text \<open>The job that \<^verbatim>\<open>enqueueBroadcastAll\<close> makes for a shard.\<close>

definition job :: "json \<Rightarrow> int \<Rightarrow> broadcastJob" where
  "job p i = \<lparr>kind = broadcastAll, shard = i, data = p\<rparr>"

subsection \<open>Connections as the upgrade handler builds them, and example states\<close>

text \<open>The Connection that \<^verbatim>\<open>HandleWebSocket\<close> builds before it hands it to the hub.\<close>

definition new_Connection :: "string \<Rightarrow> string \<Rightarrow> hub \<Rightarrow> fault + connection" where
  "new_Connection ident userID h =
     (case make_chan (MessageBufferSize (config h)) of
        Inl f \<Rightarrow> Inl f
      | Inr ch \<Rightarrow>
          Inr \<lparr>ID = ident, UserID = userID, Conn = Open, Send = ch, LastPing = clock h,
               IsAlive = True, Groups = {}, Metadata = Map.empty\<rparr>)"

text \<open>A store in which no connection has been built yet.\<close>

definition store0 :: "addr \<Rightarrow> connection" where
  "store0 = (\<lambda>a. \<lparr>ID = [], UserID = [], Conn = Closed,
      Send = \<lparr>buf = [], cap = 0, is_closed = True, received = []\<rparr>,
      LastPing = 0, IsAlive = False, Groups = {}, Metadata = Map.empty\<rparr>)"


text \<open>A hub in bounded-wait mode with no send timeout configured, and one connection whose
  queue of capacity one is full.\<close>

definition waiting_config :: config where
  "waiting_config = DefaultConfig\<lparr>DropOnFull := False, SendTimeout := 0, MessageBufferSize := 1\<rparr>"

definition waiting_hub :: hub where
  "waiting_hub =
     (let h = projr (NewHub (Some waiting_config) store0 0) in
      upd_conn 10 (\<lambda>c. (projr (new_Connection ''c1'' ''u1'' h))
                         \<lparr>Send := chan_put JNull (Send (projr (new_Connection ''c1'' ''u1'' h)))\<rparr>) h)"



text \<open>The goroutines when none of them receives.\<close>

definition quiet_env :: env where
  "quiet_env = \<lparr>writer = (\<lambda>a. Absent), worker = (\<lambda>i. Absent), pinger = (\<lambda>i. Absent),
                control = Absent\<rparr>"

text \<open>Hubs with one shard, as they are after the connections \<open>c1\<close> and \<open>c2\<close> of user
  \<open>u1\<close> and \<open>c3\<close> of user \<open>u2\<close> have been registered and \<open>c1\<close> has joined the group
  \<open>g\<close>. In \<open>chat_hub\<close> the queues have capacity four and are empty.\<close>

definition chat_config :: config where
  "chat_config = DefaultConfig\<lparr>MessageBufferSize := 4, ShardCount := 1\<rparr>"

definition idle_connection :: "string \<Rightarrow> string \<Rightarrow> string set \<Rightarrow> connection" where
  "idle_connection ident userID groups =
     \<lparr>ID = ident, UserID = userID, Conn = Open,
      Send = \<lparr>buf = [], cap = 4, is_closed = False, received = []\<rparr>,
      LastPing = 0, IsAlive = True, Groups = groups, Metadata = Map.empty\<rparr>"

definition chat_hub :: hub where
  "chat_hub =
     \<lparr>connections = [''c1'' \<mapsto> 10, ''c2'' \<mapsto> 11, ''c3'' \<mapsto> 12],
      userConnections = [''u1'' \<mapsto> {''c1'', ''c2''}, ''u2'' \<mapsto> {''c3''}],
      groupConnections = [''g'' \<mapsto> {''c1''}],
      broadcast = \<lparr>buf = [], cap = 1000, is_closed = False, received = []\<rparr>,
      connectionCount = 3,
      config = chat_config,
      ctx_done = False,
      shardCount = 1,
      shardConns = [[''c1'' \<mapsto> 10, ''c2'' \<mapsto> 11, ''c3'' \<mapsto> 12]],
      broadcastJobs = \<lparr>buf = [], cap = 1000, is_closed = False, received = []\<rparr>,
      pingJobs = None,
      heap = store0(10 := idle_connection ''c1'' ''u1'' {''g''},
                    11 := idle_connection ''c2'' ''u1'' {},
                    12 := idle_connection ''c3'' ''u2'' {}),
      clock = 0,
      logs = [''connection registered'', ''connection registered'', ''connection registered'',
              ''user joined group'']\<rparr>"

text \<open>The connection objects before \<open>c1\<close> joins, and the frame with which it joins.\<close>

definition chat_store :: "addr \<Rightarrow> connection" where
  "chat_store = store0(10 := idle_connection ''c1'' ''u1'' {},
                       11 := idle_connection ''c2'' ''u1'' {},
                       12 := idle_connection ''c3'' ''u2'' {})"

definition join_frame :: json where
  "join_frame = JObj [(''type'', JStr ''join_group''), (''data'', JStr ''g'')]"

text \<open>In \<open>full_hub\<close> the queue of \<open>c1\<close> has capacity one and holds an element.\<close>

definition full_hub :: hub where
  "full_hub =
     upd_conn 10 (\<lambda>c. c\<lparr>Send := \<lparr>buf = [JNull], cap = 1, is_closed = False, received = []\<rparr>\<rparr>)
       (chat_hub\<lparr>config := chat_config\<lparr>MessageBufferSize := 1\<rparr>\<rparr>)"


text \<open>\<open>chat_hub\<close> sixty-one seconds later, \<open>c2\<close> having answered a ping thirty seconds
  ago and the others never.\<close>

definition late_hub :: hub where
  "late_hub =
     upd_conn 11 (\<lambda>c. c\<lparr>LastPing := 30 * Second\<rparr>) (chat_hub\<lparr>clock := 61 * Second\<rparr>)"

text \<open>The frame with which a connection leaves the group \<open>g\<close>, decoded.\<close>

definition leave_g :: message where
  "leave_g = zero_Message\<lparr>Type := ''leave_group'', Data := DStr ''g''\<rparr>"


definition untargeted_frame :: json where
  "untargeted_frame = JObj [(''type'', JStr ''chat''), (''data'', JObj [(''text'', JStr ''hi'')])]"

text \<open>\<open>chat_hub\<close> with a maximum of three connections, which it has; and the hub that
  \<^verbatim>\<open>NewHub\<close> returns after the connection \<open>c1\<close> has been built and registered.\<close>

definition crowded_hub :: hub where
  "crowded_hub = chat_hub\<lparr>config := chat_config\<lparr>MaxConnections := 3\<rparr>\<rparr>"

definition one_hub :: hub where
  "one_hub =
     projr (registerConnection 10 []
       ((projr (NewHub (Some chat_config) store0 0))
          \<lparr>heap := store0(10 := idle_connection ''c1'' ''u1'' {}), clock := 5\<rparr>))"

section \<open>Properties\<close>

subsection \<open>What the operations leave alone\<close>

lemma same_registry_refl [simp]: "same_registry h h"
  by (simp add: same_registry_def)

lemma same_registry_trans: "same_registry h h1 \<Longrightarrow> same_registry h1 h2 \<Longrightarrow> same_registry h h2"
  by (cases h, cases h1, cases h2) (simp add: same_registry_def)

lemma same_registry_fields:
  assumes "same_registry h h'"
  shows "connections h' = connections h" "userConnections h' = userConnections h"
    "groupConnections h' = groupConnections h" "broadcast h' = broadcast h"
    "connectionCount h' = connectionCount h" "config h' = config h"
    "ctx_done h' = ctx_done h" "shardCount h' = shardCount h" "shardConns h' = shardConns h"
    "broadcastJobs h' = broadcastJobs h" "pingJobs h' = pingJobs h"
  using assms by (cases h, cases h', simp add: same_registry_def)+

lemma same_registry_logf [simp]: "same_registry h g \<Longrightarrow> same_registry h (logf l g)"
  by (cases h, cases g) (simp add: same_registry_def logf_def)

lemma same_registry_upd_conn [simp]: "same_registry h g \<Longrightarrow> same_registry h (upd_conn a f g)"
  by (cases h, cases g) (simp add: same_registry_def upd_conn_def)

lemma same_registry_Conn_Close [simp]: "same_registry h g \<Longrightarrow> same_registry h (Conn_Close a g)"
  by (simp add: Conn_Close_def)

lemma same_registry_clock [simp]: "same_registry h g \<Longrightarrow> same_registry h (g\<lparr>clock := t\<rparr>)"
  by (cases h, cases g) (simp add: same_registry_def)

lemma same_registry_count: "same_registry h h' \<Longrightarrow> same_count h h'"
  by (simp add: same_count_def same_registry_fields)

lemma same_count_refl [simp]: "same_count h h"
  by (simp add: same_count_def)

lemma same_count_trans: "same_count h h1 \<Longrightarrow> same_count h1 h2 \<Longrightarrow> same_count h h2"
  by (simp add: same_count_def)

lemma foldE_preserves:
  assumes "foldE f xs s = Inr s'" and "P s"
    and "\<And>x t t'. x \<in> set xs \<Longrightarrow> P t \<Longrightarrow> f x t = Inr t' \<Longrightarrow> P t'"
  shows "P s'"
  using assms
proof (induction xs arbitrary: s)
  case Nil
  then show ?case by simp
next
  case (Cons x xs)
  from Cons.prems(1) obtain t where t: "f x s = Inr t" "foldE f xs t = Inr s'"
    by (auto split: sum.splits)
  from Cons.prems(3)[of x s t] t Cons.prems(2) have Pt: "P t" by simp
  show ?case
  proof (rule Cons.IH[OF t(2) Pt])
    fix y u u' assume "y \<in> set xs" "P u" "f y u = Inr u'"
    then show "P u'" using Cons.prems(3)[of y u u'] by simp
  qed
qed

lemma foldE_rel:
  assumes "foldE f xs s = Inr s'"
    and "\<And>t. R t t" and "\<And>t1 t2 t3. R t1 t2 \<Longrightarrow> R t2 t3 \<Longrightarrow> R t1 t3"
    and "\<And>x t t'. x \<in> set xs \<Longrightarrow> f x t = Inr t' \<Longrightarrow> R t t'"
  shows "R s s'"
  using foldE_preserves[of f xs s s' "R s"] assms by blast

(* trySend frame *)
lemma heap_upd_conn: "heap (upd_conn a f h) = (heap h)(a := f (heap h a))"
  by (simp add: upd_conn_def)

lemma heap_logf [simp]: "heap (logf l h) = heap h"
  by (simp add: logf_def)

lemma config_logf [simp]: "config (logf l h) = config h"
  by (simp add: logf_def)

lemma trySend_frame:
  assumes "trySend a p (logf l) r h = Inr h'"
  shows "same_registry h h'" "\<And>b. b \<noteq> a \<Longrightarrow> heap h' b = heap h b"
    "attempted (config h) r p (heap h a) (heap h' a)"
proof -
  have nc: "\<not> is_closed (Send (heap h a))"
    using assms by (auto simp: trySend_def select_send_default_def select_send_timeout_def
        split: if_splits)
  show "same_registry h h'"
    using assms
    by (auto simp: trySend_def dropped_def Let_def
        split: if_splits sum.splits option.splits prod.splits)
  show "\<And>b. b \<noteq> a \<Longrightarrow> heap h' b = heap h b"
    using assms
    by (auto simp: trySend_def dropped_def Let_def upd_conn_def Conn_Close_def logf_def
        split: if_splits sum.splits option.splits prod.splits)
  show "attempted (config h) r p (heap h a) (heap h' a)"
    using assms nc
    by (auto simp: trySend_def dropped_def Let_def upd_conn_def Conn_Close_def logf_def
        attempted_def select_send_default_def select_send_timeout_def
        split: if_splits sum.splits option.splits prod.splits receiver.splits)
qed


lemma attempted_same:
  "attempted cfg r p c c' \<Longrightarrow> c' = c\<lparr>Send := Send c', Conn := Conn c'\<rparr>"
  by (cases c) (auto simp: attempted_def split: if_splits)


lemma send_one_frame:
  assumes "send_one line p e i h = Inr h'"
  shows "same_registry h h'"
    and "\<And>b. connections h i \<noteq> Some b \<or> \<not> IsAlive (heap h b) \<Longrightarrow> heap h' b = heap h b"
    and "\<And>b. connections h i = Some b \<Longrightarrow> IsAlive (heap h b) \<Longrightarrow>
           attempted (config h) (writer e b) p (heap h b) (heap h' b)"
proof -
  show "same_registry h h'"
    using assms trySend_frame(1)[of _ p "line i" _ h h']
    by (auto simp: send_one_def split: option.splits if_splits)
  show "heap h' b = heap h b" if "connections h i \<noteq> Some b \<or> \<not> IsAlive (heap h b)" for b
  proof (cases "connections h i")
    case None
    with assms show ?thesis by (simp add: send_one_def)
  next
    case (Some a)
    show ?thesis
    proof (cases "IsAlive (heap h a)")
      case True
      with Some assms have t: "trySend a p (logf (line i)) (writer e a) h = Inr h'"
        by (simp add: send_one_def)
      from that Some True have "b \<noteq> a" by auto
      with trySend_frame(2)[OF t] show ?thesis by simp
    next
      case False
      with Some assms show ?thesis by (simp add: send_one_def)
    qed
  qed
  show "attempted (config h) (writer e b) p (heap h b) (heap h' b)"
    if "connections h i = Some b" "IsAlive (heap h b)" for b
    using assms that trySend_frame(3)[of b p "line i" "writer e b" h h']
    by (simp add: send_one_def)
qed


subsection \<open>Serialization of a Message\<close>








subsection \<open>Configuration validation and hub construction\<close>




subsection \<open>Backpressure\<close>

text \<open>
  C3, as the code has it. On a connection whose queue has not been closed: in
  drop-on-full mode \<^verbatim>\<open>trySend\<close> does not wait; it hands the payload to the queue when the
  send can proceed at once, and otherwise calls the drop callback and then closes the
  transport if close-on-backpressure is set. In bounded-wait mode it waits for a time
  \<open>t\<close> that is at most the configured send timeout when that is positive and at most 50
  milliseconds when it is not; either the payload is on the queue then, or the send could
  not proceed and the drop callback and the optional close follow.
\<close>

theorem trySend_policy:
  assumes "\<not> is_closed (Send (heap h a))"
  shows "(DropOnFull (config h) \<longrightarrow>
            trySend a p onDrop r h =
              Inr (if send_ready (Send (heap h a)) r
                   then upd_conn a (\<lambda>c. c\<lparr>Send := send_now p (Send c)\<rparr>) h
                   else if CloseOnBackpressure (config (onDrop h)) then Conn_Close a (onDrop h)
                   else onDrop h)) \<and>
         (\<not> DropOnFull (config h) \<longrightarrow>
            (\<exists>t. 0 \<le> t \<and>
                 t \<le> (if 0 < sint (SendTimeout (config h)) then sint (SendTimeout (config h))
                       else 50 * Millisecond) \<and>
                 (trySend a p onDrop r h =
                    Inr (upd_conn a
                          (\<lambda>c. c\<lparr>Send := (if send_ready (Send c) r then send_now p (Send c)
                                            else after_wait p (Send c))\<rparr>)
                          (h\<lparr>clock := clock h + t\<rparr>)) \<or>
                  \<not> send_ready (Send (heap h a)) r \<and>
                  trySend a p onDrop r h =
                    Inr (if CloseOnBackpressure (config (onDrop (h\<lparr>clock := clock h + t\<rparr>)))
                         then Conn_Close a (onDrop (h\<lparr>clock := clock h + t\<rparr>))
                         else onDrop (h\<lparr>clock := clock h + t\<rparr>)))))"
proof (intro conjI impI)
  assume d: "DropOnFull (config h)"
  show "trySend a p onDrop r h =
              Inr (if send_ready (Send (heap h a)) r
                   then upd_conn a (\<lambda>c. c\<lparr>Send := send_now p (Send c)\<rparr>) h
                   else if CloseOnBackpressure (config (onDrop h)) then Conn_Close a (onDrop h)
                   else onDrop h)"
    using assms d
    by (simp add: trySend_def select_send_default_def dropped_def Let_def upd_conn_def)
next
  assume d: "\<not> DropOnFull (config h)"
  let ?T = "send_timeout (config h)"
  let ?sent = "\<lambda>t. Inr (upd_conn a
                          (\<lambda>c. c\<lparr>Send := (if send_ready (Send c) r then send_now p (Send c)
                                            else after_wait p (Send c))\<rparr>)
                          (h\<lparr>clock := clock h + t\<rparr>)) :: fault + hub"
  let ?lost = "\<lambda>t. Inr (if CloseOnBackpressure (config (onDrop (h\<lparr>clock := clock h + t\<rparr>)))
                         then Conn_Close a (onDrop (h\<lparr>clock := clock h + t\<rparr>))
                         else onDrop (h\<lparr>clock := clock h + t\<rparr>)) :: fault + hub"
  have T: "?T = (if 0 < sint (SendTimeout (config h)) then sint (SendTimeout (config h))
                       else 50 * Millisecond)"
    by (simp add: send_timeout_def)
  have Tpos: "0 < ?T" by (simp add: send_timeout_def Millisecond_def)
  have "\<exists>t. 0 \<le> t \<and> t \<le> ?T \<and>
          (trySend a p onDrop r h = ?sent t \<or>
           \<not> send_ready (Send (heap h a)) r \<and> trySend a p onDrop r h = ?lost t)"
  proof (cases "send_ready (Send (heap h a)) r")
    case True
    with assms d have "trySend a p onDrop r h = ?sent 0"
      by (simp add: trySend_def select_send_timeout_def upd_conn_def)
    with Tpos show ?thesis by (intro exI[of _ 0]) (simp del: add_0_right)
  next
    case nr: False
    show ?thesis
    proof (cases "\<exists>t. r = Receives t \<and> int t < ?T")
      case True
      then obtain t where t: "r = Receives t" "int t < ?T" by blast
      with assms d nr have "trySend a p onDrop r h = ?sent (int t)"
        by (simp add: trySend_def select_send_timeout_def upd_conn_def)
      with t show ?thesis by (intro exI[of _ "int t"]) simp
    next
      case False
      with assms d nr have "trySend a p onDrop r h = ?lost ?T"
        by (cases r) (auto simp add: trySend_def select_send_timeout_def dropped_def Let_def)
      with nr Tpos show ?thesis by (intro exI[of _ ?T]) simp
    qed
  qed
  then show "\<exists>t. 0 \<le> t \<and>
                 t \<le> (if 0 < sint (SendTimeout (config h)) then sint (SendTimeout (config h))
                       else 50 * Millisecond) \<and>
                 (trySend a p onDrop r h = ?sent t \<or>
                  \<not> send_ready (Send (heap h a)) r \<and> trySend a p onDrop r h = ?lost t)"
    unfolding T .
qed

lemma full_hub_config: "config full_hub = chat_config\<lparr>MessageBufferSize := 1\<rparr>"
  by (simp add: full_hub_def chat_hub_def upd_conn_def)

lemma full_hub_connection:
  "heap full_hub 10 =
     \<lparr>ID = ''c1'', UserID = ''u1'', Conn = Open,
      Send = \<lparr>buf = [JNull], cap = 1, is_closed = False, received = []\<rparr>,
      LastPing = 0, IsAlive = True, Groups = {''g''}, Metadata = Map.empty\<rparr>"
  by (simp add: full_hub_def chat_hub_def upd_conn_def idle_connection_def)

theorem trySend_policy_witness:
  "\<not> is_closed (Send (heap full_hub 10)) \<and> DropOnFull (config full_hub) \<and>
   \<not> send_ready (Send (heap full_hub 10)) Absent \<and>
   trySend 10 (JStr ''m'') (logf ''drop'') Absent full_hub = Inr (logf ''drop'' full_hub)"
  using trySend_policy[of full_hub 10 "JStr ''m''" "logf ''drop''" Absent]
  by (simp add: full_hub_config full_hub_connection chat_config_def DefaultConfig_def
      send_ready_def logf_def)

text \<open>C3 as stated fails in bounded-wait mode: with a send timeout of zero configured, a
  full queue and a writer that does not receive, the caller is parked for 50
  milliseconds.\<close>

lemma waiting_hub_facts:
  "\<not> DropOnFull (config waiting_hub)" "sint (SendTimeout (config waiting_hub)) = 0"
  "\<not> is_closed (Send (heap waiting_hub 10))"
  "buf (Send (heap waiting_hub 10)) = [JNull]" "cap (Send (heap waiting_hub 10)) = 1"
  by (simp_all add: waiting_hub_def waiting_config_def DefaultConfig_def NewHub_def make_chan_def
        Let_def new_Connection_def upd_conn_def chan_put_def)

theorem trySend_waits_without_timeout:
  "\<not> DropOnFull (config waiting_hub) \<and> sint (SendTimeout (config waiting_hub)) = 0 \<and>
   clock (projr (trySend 10 (JStr ''m'') (logf ''drop'') Absent waiting_hub)) - clock waiting_hub
     = 50000000"
  by (simp add: waiting_hub_facts trySend_def select_send_timeout_def send_ready_def
      send_timeout_def Millisecond_def dropped_def Let_def logf_def Conn_Close_def upd_conn_def)

subsection \<open>Message routing\<close>



lemma stamp_fields [simp]:
  "To (stamp t m) = To m" "Group (stamp t m) = Group m" "Data (stamp t m) = Data m"
  "From (stamp t m) = From m" "Type (stamp t m) = Type m"
  by (simp_all add: stamp_def)

lemma user_index_okD:
  "user_index_ok h \<Longrightarrow>
   (case userConnections h u of None \<Rightarrow> False | Some S \<Rightarrow> i \<in> S) =
   (u \<noteq> [] \<and> (case connections h i of None \<Rightarrow> False | Some a \<Rightarrow> UserID (heap h a) = u))"
  by (simp add: user_index_ok_def)







subsection \<open>Heartbeats\<close>

lemma check_one_frame:
  "same_registry h (check_one now i h)"
  "clock (check_one now i h) = clock h"
  by (auto simp: check_one_def same_registry_def upd_conn_def Conn_Close_def logf_def
      split: option.splits)

lemma check_one_heap:
  "heap (check_one now i h) b =
     (if connections h i = Some b \<and> time_Sub now (LastPing (heap h b)) > sint (ConnectionTimeout (config h))
      then (heap h b)\<lparr>IsAlive := False, Conn := Closed\<rparr> else heap h b)"
  by (cases "heap h b")
    (auto simp: check_one_def upd_conn_def Conn_Close_def logf_def split: option.splits)

lemma check_loop:
  "same_registry h (fold (check_one now) ids h) \<and>
   clock (fold (check_one now) ids h) = clock h \<and>
   (\<forall>b. heap (fold (check_one now) ids h) b =
     (if (\<exists>i\<in>set ids. connections h i = Some b) \<and>
         time_Sub now (LastPing (heap h b)) > sint (ConnectionTimeout (config h))
      then (heap h b)\<lparr>IsAlive := False, Conn := Closed\<rparr> else heap h b))"
proof (induction ids arbitrary: h)
  case Nil
  show ?case by simp
next
  case (Cons i ids)
  let ?h1 = "check_one now i h"
  note IH = Cons.IH[of ?h1]
  note F = same_registry_fields[OF check_one_frame(1)[of h now i]]
  have reg: "same_registry h (fold (check_one now) (i # ids) h)"
    using same_registry_trans[OF check_one_frame(1)[of h now i]] IH by simp
  have clk: "clock (fold (check_one now) (i # ids) h) = clock h"
    using IH check_one_frame(2)[of now i h] by simp
  have hp: "heap (fold (check_one now) (i # ids) h) b =
     (if (\<exists>j\<in>set (i # ids). connections h j = Some b) \<and>
         time_Sub now (LastPing (heap h b)) > sint (ConnectionTimeout (config h))
      then (heap h b)\<lparr>IsAlive := False, Conn := Closed\<rparr> else heap h b)" for b
  proof -
    have "heap (fold (check_one now) (i # ids) h) b =
       (if (\<exists>j\<in>set ids. connections h j = Some b) \<and>
         time_Sub now (LastPing (heap ?h1 b)) > sint (ConnectionTimeout (config h))
      then (heap ?h1 b)\<lparr>IsAlive := False, Conn := Closed\<rparr> else heap ?h1 b)"
      using IH F by simp
    then show ?thesis
      by (cases "heap h b") (auto simp: check_one_heap)
  qed
  from reg clk hp show ?case by blast
qed

lemma checkHeartbeats_scan:
  assumes "set ids = dom (connections h)"
  shows "same_registry h (checkHeartbeats ids h) \<and>
         (\<forall>b. heap (checkHeartbeats ids h) b =
            (if (\<exists>i. connections h i = Some b) \<and>
                time_Sub (clock h) (LastPing (heap h b)) > sint (ConnectionTimeout (config h))
             then (heap h b)\<lparr>IsAlive := False, Conn := Closed\<rparr>
             else heap h b))"
proof -
  have "(\<exists>i\<in>set ids. connections h i = Some b) = (\<exists>i. connections h i = Some b)" for b
    using assms by auto
  with check_loop[of h "clock h" ids] show ?thesis
    by (simp add: checkHeartbeats_def)
qed

lemma ping_loop:
  assumes "foldE (ping_job e) is h = Inr h'"
  shows "h' = h\<lparr>pingJobs := pingJobs h'\<rparr>"
proof (rule foldE_rel[where R = "\<lambda>s s'. s' = s\<lparr>pingJobs := pingJobs s'\<rparr>", OF assms])
  show "t = t\<lparr>pingJobs := pingJobs t\<rparr>" for t :: hub by simp
  show "t3 = t1\<lparr>pingJobs := pingJobs t3\<rparr>"
    if "t2 = t1\<lparr>pingJobs := pingJobs t2\<rparr>" "t3 = t2\<lparr>pingJobs := pingJobs t3\<rparr>"
    for t1 t2 t3 :: hub
    using that by (cases t1, cases t2, cases t3) simp
  show "t' = t\<lparr>pingJobs := pingJobs t'\<rparr>" if "ping_job e x t = Inr t'" for x t t'
    using that by (auto simp: ping_job_def split: option.splits sum.splits)
qed

lemma tick_is_scan:
  assumes "tick ids e h = Inr h'"
  shows "\<exists>h1. h1 = h\<lparr>pingJobs := pingJobs h1\<rparr> \<and> h' = checkHeartbeats ids h1"
proof (cases "EnableGlobalPing (config h)")
  case True
  with assms obtain h1 where l: "foldE (ping_job e) [0..shardCount h - 1] h = Inr h1"
    and h': "h' = checkHeartbeats ids h1"
    by (auto simp: tick_def split: sum.splits)
  from ping_loop[OF l] h' show ?thesis by blast
next
  case False
  with assms have "h' = checkHeartbeats ids h" by (simp add: tick_def)
  moreover have "h = h\<lparr>pingJobs := pingJobs h\<rparr>" by simp
  ultimately show ?thesis by blast
qed

text \<open>
  C5. On a tick of the heartbeat ticker the control loop runs \<^verbatim>\<open>checkHeartbeats\<close>, which
  goes through the connection map in whatever order Go yields it. Afterwards exactly the
  registered connections whose last heartbeat lies further back from the time of the scan
  than the connection timeout have their alive flag false and their transport closed; every
  other connection object, registered or not, is as it was. The scan changes nothing else
  of the hub but its log.
\<close>

theorem heartbeat_scan:
  assumes "set ids = dom (connections h)"
  shows "same_registry h (checkHeartbeats ids h) \<and>
         (\<forall>b. heap (checkHeartbeats ids h) b =
            (if (\<exists>i. connections h i = Some b) \<and>
                time_Sub (clock h) (LastPing (heap h b)) > sint (ConnectionTimeout (config h))
             then (heap h b)\<lparr>IsAlive := False, Conn := Closed\<rparr>
             else heap h b)) \<and>
         (\<forall>h'. tick ids e h = Inr h' \<longrightarrow>
            (\<forall>b. heap h' b =
               (if (\<exists>i. connections h i = Some b) \<and>
                   time_Sub (clock h) (LastPing (heap h b)) > sint (ConnectionTimeout (config h))
                then (heap h b)\<lparr>IsAlive := False, Conn := Closed\<rparr>
                else heap h b)))"
proof (intro conjI allI impI)
  note S = checkHeartbeats_scan[OF assms]
  show "same_registry h (checkHeartbeats ids h)" using S by blast
  show "heap (checkHeartbeats ids h) b =
            (if (\<exists>i. connections h i = Some b) \<and>
                time_Sub (clock h) (LastPing (heap h b)) > sint (ConnectionTimeout (config h))
             then (heap h b)\<lparr>IsAlive := False, Conn := Closed\<rparr>
             else heap h b)" for b
    using S by blast
next
  fix h' b assume "tick ids e h = Inr h'"
  from tick_is_scan[OF this] obtain h1 where
    h1: "h1 = h\<lparr>pingJobs := pingJobs h1\<rparr>" and h': "h' = checkHeartbeats ids h1"
    by blast
  have eq: "connections h1 = connections h" "heap h1 = heap h" "clock h1 = clock h"
    "config h1 = config h"
    by (subst h1, simp)+
  with assms have "set ids = dom (connections h1)" by simp
  from checkHeartbeats_scan[OF this] h' eq
  show "heap h' b =
               (if (\<exists>i. connections h i = Some b) \<and>
                   time_Sub (clock h) (LastPing (heap h b)) > sint (ConnectionTimeout (config h))
                then (heap h b)\<lparr>IsAlive := False, Conn := Closed\<rparr>
                else heap h b)"
    by simp
qed

theorem heartbeat_scan_witness:
  "set [''c3'', ''c1'', ''c2''] = dom (connections late_hub) \<and>
   heap (checkHeartbeats [''c3'', ''c1'', ''c2''] late_hub) 10 =
     (heap late_hub 10)\<lparr>IsAlive := False, Conn := Closed\<rparr> \<and>
   heap (checkHeartbeats [''c3'', ''c1'', ''c2''] late_hub) 11 = heap late_hub 11 \<and>
   IsAlive (heap late_hub 10) \<and> IsAlive (heap late_hub 11)"
proof -
  have d: "set [''c3'', ''c1'', ''c2''] = dom (connections late_hub)"
    by (auto simp: late_hub_def chat_hub_def upd_conn_def)
  have c: "connections late_hub ''c1'' = Some 10" "connections late_hub ''c2'' = Some 11"
    by (simp_all add: late_hub_def chat_hub_def upd_conn_def)
  have t: "time_Sub (clock late_hub) (LastPing (heap late_hub 10))
             > sint (ConnectionTimeout (config late_hub))"
    "\<not> time_Sub (clock late_hub) (LastPing (heap late_hub 11))
             > sint (ConnectionTimeout (config late_hub))"
    by (simp_all add: late_hub_def chat_hub_def upd_conn_def idle_connection_def time_Sub_def
        maxDuration_def minDuration_def Second_def chat_config_def DefaultConfig_def)
  have a: "IsAlive (heap late_hub 10)" "IsAlive (heap late_hub 11)"
    by (simp_all add: late_hub_def chat_hub_def upd_conn_def idle_connection_def)
  from heartbeat_scan[OF d, of quiet_env]
  have all: "\<forall>b. heap (checkHeartbeats [''c3'', ''c1'', ''c2''] late_hub) b =
            (if (\<exists>i. connections late_hub i = Some b) \<and>
                time_Sub (clock late_hub) (LastPing (heap late_hub b))
                  > sint (ConnectionTimeout (config late_hub))
             then (heap late_hub b)\<lparr>IsAlive := False, Conn := Closed\<rparr>
             else heap late_hub b)"
    by (elim conjE)
  from all[rule_format, of 10] c(1) t(1)
  have "heap (checkHeartbeats [''c3'', ''c1'', ''c2''] late_hub) 10 =
     (heap late_hub 10)\<lparr>IsAlive := False, Conn := Closed\<rparr>" by auto
  moreover from all[rule_format, of 11] t(2)
  have "heap (checkHeartbeats [''c3'', ''c1'', ''c2''] late_hub) 11 = heap late_hub 11" by auto
  ultimately show ?thesis using d a by blast
qed


subsection \<open>Groups\<close>

lemma index_del_at:
  "index_del k i m k = Some S \<Longrightarrow> i \<notin> S \<and> S \<noteq> {}"
  by (auto simp: index_del_def split: option.splits if_splits)

lemma index_del_value:
  "index_del k i m k = (case m k of None \<Rightarrow> None
                        | Some S \<Rightarrow> if S - {i} = {} then None else Some (S - {i}))"
  by (auto simp: index_del_def split: option.splits)

lemma index_del_other: "g \<noteq> k \<Longrightarrow> index_del k i m g = m g"
  by (auto simp: index_del_def split: option.splits)

lemma index_del_keeps_out:
  "(\<forall>S. m g = Some S \<longrightarrow> i \<notin> S) \<Longrightarrow> (\<forall>S. index_del k i m g = Some S \<longrightarrow> i \<notin> S)"
  by (auto simp: index_del_def split: option.splits if_splits)

lemma index_add_at: "index_add k i m k = Some (insert i (case m k of None \<Rightarrow> {} | Some S \<Rightarrow> S))"
  by (simp add: index_add_def)

lemma fold_index_del_keeps_out:
  "(\<forall>S. m g = Some S \<longrightarrow> i \<notin> S) \<Longrightarrow>
   (\<forall>S. fold (\<lambda>k. index_del k i) gs m g = Some S \<longrightarrow> i \<notin> S)"
proof (induction gs arbitrary: m)
  case Nil
  then show ?case by simp
next
  case (Cons k gs)
  have "\<forall>S. index_del k i m g = Some S \<longrightarrow> i \<notin> S"
    using Cons.prems by (rule index_del_keeps_out)
  then have "\<forall>S. fold (\<lambda>k. index_del k i) gs (index_del k i m) g = Some S \<longrightarrow> i \<notin> S"
    by (rule Cons.IH)
  then show ?case by simp
qed

lemma fold_index_del_out:
  "g \<in> set gs \<Longrightarrow> \<forall>S. fold (\<lambda>k. index_del k i) gs m g = Some S \<longrightarrow> i \<notin> S"
proof (induction gs arbitrary: m)
  case Nil
  then show ?case by simp
next
  case (Cons k gs)
  show ?case
  proof (cases "g = k")
    case True
    have "\<forall>S. index_del k i m g = Some S \<longrightarrow> i \<notin> S"
      using index_del_at[of k i m] True by auto
    then have "\<forall>S. fold (\<lambda>k. index_del k i) gs (index_del k i m) g = Some S \<longrightarrow> i \<notin> S"
      by (rule fold_index_del_keeps_out)
    then show ?thesis by simp
  next
    case False
    with Cons.prems have "g \<in> set gs" by simp
    then have "\<forall>S. fold (\<lambda>k. index_del k i) gs (index_del k i m) g = Some S \<longrightarrow> i \<notin> S"
      by (rule Cons.IH)
    then show ?thesis by simp
  qed
qed

lemma fold_index_del_other:
  "g \<notin> set gs \<Longrightarrow> fold (\<lambda>k. index_del k i) gs m g = m g"
  by (induction gs arbitrary: m) (auto simp: index_del_other)

lemma fold_group_del:
  "fold (\<lambda>g x. x\<lparr>groupConnections := index_del g i (groupConnections x)\<rparr>) gs h =
   h\<lparr>groupConnections := fold (\<lambda>k. index_del k i) gs (groupConnections h)\<rparr>"
  by (induction gs arbitrary: h) simp_all

lemma reply_frame:
  assumes "reply a r e h = Inr h'"
  shows "same_registry h h'" "\<And>b. b \<noteq> a \<Longrightarrow> heap h' b = heap h b"
    "ID (heap h' a) = ID (heap h a)" "UserID (heap h' a) = UserID (heap h a)"
    "Groups (heap h' a) = Groups (heap h a)" "Conn (heap h' a) = Conn (heap h a)"
    "IsAlive (heap h' a) = IsAlive (heap h a)" "LastPing (heap h' a) = LastPing (heap h a)"
    "Metadata (heap h' a) = Metadata (heap h a)"
  using assms
  by (auto simp: reply_def upd_conn_def logf_def same_registry_def
      split: sum.splits option.splits)

lemma reply_total:
  "\<not> is_closed (Send (heap h a)) \<Longrightarrow> \<exists>h'. reply a r e h = Inr h'"
  by (auto simp: reply_def select_send_default_def split: sum.splits option.splits)

lemma handleLeaveGroup_effect:
  assumes d: "Data msg = DStr G" and run: "handleLeaveGroup a msg e h = Inr h'"
  shows "groupConnections h' = index_del G (ID (heap h a)) (groupConnections h)"
    and "Groups (heap h' a) = Groups (heap h a) - {G}"
    and "connections h' = connections h" and "userConnections h' = userConnections h"
proof -
  let ?h1 = "upd_conn a (\<lambda>c. c\<lparr>Groups := Groups c - {G}\<rparr>) h"
  let ?h2 = "?h1\<lparr>groupConnections := index_del G (ID (heap ?h1 a)) (groupConnections ?h1)\<rparr>"
  from run d obtain h3 r where r: "reply a r e ?h2 = Inr h3" and h': "h' = logf ''user left group'' h3"
    by (auto simp: handleLeaveGroup_def Let_def split: sum.splits)
  note F = reply_frame[OF r]
  note R = same_registry_fields[OF F(1)]
  show "groupConnections h' = index_del G (ID (heap h a)) (groupConnections h)"
    using R h' by (simp add: logf_def upd_conn_def)
  show "Groups (heap h' a) = Groups (heap h a) - {G}"
    using F(5) h' by (simp add: logf_def upd_conn_def)
  show "connections h' = connections h" "userConnections h' = userConnections h"
    using R h' by (simp_all add: logf_def upd_conn_def)
qed

lemma handleJoinGroup_effect:
  assumes d: "Data msg = DStr G" and run: "handleJoinGroup a msg e h = Inr h'"
  shows "groupConnections h' = index_add G (ID (heap h a)) (groupConnections h)"
    and "ID (heap h' a) = ID (heap h a)"
proof -
  let ?h1 = "upd_conn a (\<lambda>c. c\<lparr>Groups := insert G (Groups c)\<rparr>) h"
  let ?h2 = "?h1\<lparr>groupConnections := index_add G (ID (heap ?h1 a)) (groupConnections ?h1)\<rparr>"
  from run d obtain h3 r where r: "reply a r e ?h2 = Inr h3" and h': "h' = logf ''user joined group'' h3"
    by (auto simp: handleJoinGroup_def Let_def split: sum.splits)
  note F = reply_frame[OF r]
  note R = same_registry_fields[OF F(1)]
  show "groupConnections h' = index_add G (ID (heap h a)) (groupConnections h)"
    using R h' by (simp add: logf_def upd_conn_def)
  show "ID (heap h' a) = ID (heap h a)"
    using F(3) h' by (simp add: logf_def upd_conn_def)
qed

lemma handleLeaveGroup_total:
  assumes "Data msg = DStr G" "\<not> is_closed (Send (heap h a))"
  shows "\<not> isl (handleLeaveGroup a msg e h)"
proof -
  let ?h1 = "upd_conn a (\<lambda>c. c\<lparr>Groups := Groups c - {G}\<rparr>) h"
  let ?h2 = "?h1\<lparr>groupConnections := index_del G (ID (heap ?h1 a)) (groupConnections ?h1)\<rparr>"
  let ?r = "zero_Message\<lparr>Type := ''group_left'', Data := DStr G,
                                          Timestamp := time_Unix (clock ?h2)\<rparr>"
  have "\<not> is_closed (Send (heap ?h2 a))" using assms(2) by (simp add: upd_conn_def)
  from reply_total[OF this, of ?r e] obtain h3 where "reply a ?r e ?h2 = Inr h3" by blast
  then have "handleLeaveGroup a msg e h = Inr (logf ''user left group'' h3)"
    using assms(1) by (simp add: handleLeaveGroup_def Let_def)
  then show ?thesis by simp
qed

text \<open>
  C7. A connection that leaves the group \<open>G\<close> (a \<^verbatim>\<open>leave_group\<close> frame whose data is the
  string \<open>G\<close>), in whatever state the hub is, so also some time after it joined:
  the handler returns unless the connection's queue has been closed, and afterwards the
  group index does not hold the connection's id under \<open>G\<close>; an entry that is left for
  \<open>G\<close> is not empty, and when the connection was the only member the entry is gone; the
  connection's own group set does not hold \<open>G\<close>; the entries of the other groups are as
  they were. After a join the index holds the id under \<open>G\<close>, and a leave that follows at
  once puts the entry of \<open>G\<close> back to what it was without the id.
\<close>

theorem leave_group_removes:
  assumes "Data msg = DStr G"
  shows "(\<not> is_closed (Send (heap h a)) \<longrightarrow> \<not> isl (handleLeaveGroup a msg e h)) \<and>
         (\<forall>h'. handleLeaveGroup a msg e h = Inr h' \<longrightarrow>
            (\<forall>S. groupConnections h' G = Some S \<longrightarrow> ID (heap h a) \<notin> S \<and> S \<noteq> {}) \<and>
            ((\<forall>S. groupConnections h G = Some S \<longrightarrow> S \<subseteq> {ID (heap h a)}) \<longrightarrow>
               groupConnections h' G = None) \<and>
            G \<notin> Groups (heap h' a) \<and>
            (\<forall>g. g \<noteq> G \<longrightarrow> groupConnections h' g = groupConnections h g)) \<and>
         (\<forall>h1. handleJoinGroup a msg e h = Inr h1 \<longrightarrow>
            (\<exists>S. groupConnections h1 G = Some S \<and> ID (heap h a) \<in> S) \<and>
            (\<forall>e' h2. handleLeaveGroup a msg e' h1 = Inr h2 \<longrightarrow>
               groupConnections h2 G =
                 (case groupConnections h G of
                    None \<Rightarrow> None
                  | Some S \<Rightarrow> if S - {ID (heap h a)} = {} then None
                             else Some (S - {ID (heap h a)}))))"
proof (intro conjI allI impI)
  assume "\<not> is_closed (Send (heap h a))"
  with assms show "\<not> isl (handleLeaveGroup a msg e h)" by (rule handleLeaveGroup_total)
next
  fix h' assume run: "handleLeaveGroup a msg e h = Inr h'"
  note E = handleLeaveGroup_effect[OF assms run]
  show "ID (heap h a) \<notin> S" "S \<noteq> {}" if "groupConnections h' G = Some S" for S
    using index_del_at[of G "ID (heap h a)" "groupConnections h" S] that E(1) by simp_all
  show "groupConnections h' G = None"
    if "\<forall>S. groupConnections h G = Some S \<longrightarrow> S \<subseteq> {ID (heap h a)}"
    using that E(1) by (auto simp: index_del_value split: option.splits)
  show "G \<notin> Groups (heap h' a)" using E(2) by simp
  show "groupConnections h' g = groupConnections h g" if "g \<noteq> G" for g
    using that E(1) by (simp add: index_del_other)
next
  fix h1 assume j: "handleJoinGroup a msg e h = Inr h1"
  note J = handleJoinGroup_effect[OF assms j]
  show "\<exists>S. groupConnections h1 G = Some S \<and> ID (heap h a) \<in> S"
    using J(1) by (simp add: index_add_at)
  fix e' h2 assume l: "handleLeaveGroup a msg e' h1 = Inr h2"
  note L = handleLeaveGroup_effect[OF assms l]
  show "groupConnections h2 G =
          (case groupConnections h G of
             None \<Rightarrow> None
           | Some S \<Rightarrow> if S - {ID (heap h a)} = {} then None else Some (S - {ID (heap h a)}))"
    using L(1) J by (auto simp: index_del_value index_add_at split: option.splits)
qed


theorem leave_group_removes_witness:
  "Data leave_g = DStr ''g'' \<and> \<not> is_closed (Send (heap chat_hub 10)) \<and>
   ID (heap chat_hub 10) = ''c1'' \<and> groupConnections chat_hub ''g'' = Some {''c1''} \<and>
   \<not> isl (handleLeaveGroup 10 leave_g quiet_env chat_hub) \<and>
   groupConnections (projr (handleLeaveGroup 10 leave_g quiet_env chat_hub)) ''g'' = None"
proof -
  let ?r = "handleLeaveGroup 10 leave_g quiet_env chat_hub"
  have d: "Data leave_g = DStr ''g''" by (simp add: leave_g_def)
  have o: "\<not> is_closed (Send (heap chat_hub 10))"
    and i: "ID (heap chat_hub 10) = ''c1''"
    and g: "groupConnections chat_hub ''g'' = Some {''c1''}"
    by (simp_all add: chat_hub_def idle_connection_def)
  note T = leave_group_removes[OF d, of chat_hub 10 quiet_env]
  from T o have r: "\<not> isl ?r" by (elim conjE) simp
  then have run: "?r = Inr (projr ?r)" by (cases ?r) simp_all
  from T have "\<forall>h'. ?r = Inr h' \<longrightarrow>
            (\<forall>S. groupConnections h' ''g'' = Some S \<longrightarrow> ID (heap chat_hub 10) \<notin> S \<and> S \<noteq> {}) \<and>
            ((\<forall>S. groupConnections chat_hub ''g'' = Some S \<longrightarrow> S \<subseteq> {ID (heap chat_hub 10)}) \<longrightarrow>
               groupConnections h' ''g'' = None) \<and>
            ''g'' \<notin> Groups (heap h' 10) \<and>
            (\<forall>g. g \<noteq> ''g'' \<longrightarrow> groupConnections h' g = groupConnections chat_hub g)"
    by (elim conjE)
  from this[rule_format, OF run] i g
  have "groupConnections (projr ?r) ''g'' = None" by simp
  with d o i g r show ?thesis by simp
qed

subsection \<open>Unregistration\<close>

lemma shardIndex_ok:
  assumes "shards_ok h"
  shows "\<exists>sh. shardIndex h i = Inr sh \<and> sh < length (shardConns h)"
proof (cases "shardCount h \<le> 1")
  case True
  with assms show ?thesis by (simp add: shardIndex_def shards_ok_def)
next
  case False
  let ?m = "word_of_int (shardCount h) :: uint32"
  from False assms have r: "1 < shardCount h" "shardCount h < 2 ^ 32"
    by (simp_all add: shards_ok_def)
  then have u: "unat ?m = nat (shardCount h)"
    by (simp add: unat_eq_nat_uint uint_word_of_int take_bit_int_eq_self)
  with r have nz: "?m \<noteq> 0" by (metis nat_0_iff not_less unat_0 zero_less_one_class.zero_le_one order.strict_trans2 less_le_not_le)
  have "unat (fnv32a i mod ?m) < unat ?m"
    using nz by (simp add: unat_mod unat_gt_0)
  with u assms nz False show ?thesis
    by (simp add: shardIndex_def shards_ok_def)
qed

lemma unregister_absent:
  "connections h (ID (heap h a)) = None \<Longrightarrow> unregisterConnection a gs h = Inr h"
  by (simp add: unregisterConnection_def)

lemma unregister_effect:
  assumes reg: "connections h (ID (heap h a)) = Some x"
    and run: "unregisterConnection a gs h = Inr h'"
  shows "\<exists>sh. shardIndex h (ID (heap h a)) = Inr sh \<and> sh < length (shardConns h) \<and>
           h' = h\<lparr>connections := (connections h)(ID (heap h a) := None),
                  connectionCount := connectionCount h - 1,
                  shardConns := (shardConns h)[sh := (shardConns h ! sh)(ID (heap h a) := None)],
                  userConnections :=
                    (if UserID (heap h a) \<noteq> []
                     then index_del (UserID (heap h a)) (ID (heap h a)) (userConnections h)
                     else userConnections h),
                  groupConnections :=
                    fold (\<lambda>k. index_del k (ID (heap h a))) gs (groupConnections h),
                  heap := (heap h)(a := (heap h a)\<lparr>Send := (Send (heap h a))\<lparr>is_closed := True\<rparr>\<rparr>),
                  logs := logs h @ [''connection unregistered'']\<rparr>"
    and "\<not> is_closed (Send (heap h a))"
  using assms
  by (auto simp: unregisterConnection_def Let_def shardIndex_def shard_update_def
      fold_group_del chan_close_def upd_conn_def logf_def
      split: sum.splits if_splits)


lemma unregister_total:
  assumes "shards_ok h" "\<not> is_closed (Send (heap h a))"
  shows "\<not> isl (unregisterConnection a gs h)"
proof (cases "connections h (ID (heap h a))")
  case None
  then show ?thesis by (simp add: unregister_absent)
next
  case (Some x)
  let ?h1 = "h\<lparr>connections := (connections h)(ID (heap h a) := None),
                connectionCount := connectionCount h - 1\<rparr>"
  have "shards_ok ?h1" using assms(1) by (simp add: shards_ok_def)
  from shardIndex_ok[OF this, of "ID (heap h a)"] obtain sh where
    sh: "shardIndex ?h1 (ID (heap h a)) = Inr sh" "sh < length (shardConns h)"
    by auto
  with Some assms(2) show ?thesis
    by (simp add: unregisterConnection_def Let_def shard_update_def chan_close_def)
qed

text \<open>
  C6. Unregistering a connection a second time, in whatever order the loop over its groups
  goes, returns the state the first unregistration left: no index changes and the queue is
  not closed again. The first unregistration of a connection whose id is in the connection
  map removes the id from the map, from its shard, from the user index under the
  connection's user and from the group index under each of the connection's groups, and
  closes the connection's queue, which was open; no other connection object changes. When
  the id is not in the map nothing changes. With the shard table as \<^verbatim>\<open>NewHub\<close> builds it
  and the queue open, unregistering returns.
\<close>

theorem unregister_idempotent:
  "(shards_ok h \<and> \<not> is_closed (Send (heap h a)) \<longrightarrow>
      \<not> isl (unregisterConnection a groups h)) \<and>
   (\<forall>h'. unregisterConnection a groups h = Inr h' \<longrightarrow>
      unregisterConnection a groups' h' = Inr h' \<and>
      (connections h (ID (heap h a)) = None \<longrightarrow> h' = h) \<and>
      (connections h (ID (heap h a)) \<noteq> None \<and> set groups = Groups (heap h a) \<longrightarrow>
         connections h' (ID (heap h a)) = None \<and>
         (\<forall>sh. shardIndex h (ID (heap h a)) = Inr sh \<longrightarrow>
            (shardConns h' ! sh) (ID (heap h a)) = None) \<and>
         (UserID (heap h a) \<noteq> [] \<longrightarrow>
            (\<forall>S. userConnections h' (UserID (heap h a)) = Some S \<longrightarrow> ID (heap h a) \<notin> S)) \<and>
         (\<forall>g\<in>Groups (heap h a).
            \<forall>S. groupConnections h' g = Some S \<longrightarrow> ID (heap h a) \<notin> S) \<and>
         \<not> is_closed (Send (heap h a)) \<and> is_closed (Send (heap h' a)) \<and>
         (\<forall>b. b \<noteq> a \<longrightarrow> heap h' b = heap h b)))"
proof (intro conjI allI impI ballI)
  assume "shards_ok h \<and> \<not> is_closed (Send (heap h a))"
  then show "\<not> isl (unregisterConnection a groups h)" by (simp add: unregister_total)
next
  fix h' assume run: "unregisterConnection a groups h = Inr h'"
  show "h' = h" if "connections h (ID (heap h a)) = None"
    using that run by (simp add: unregister_absent)
  show "unregisterConnection a groups' h' = Inr h'"
  proof (cases "connections h (ID (heap h a))")
    case None
    with run have "h' = h" by (simp add: unregister_absent)
    with None show ?thesis by (simp add: unregister_absent)
  next
    case (Some x)
    from unregister_effect(1)[OF Some run] obtain sh where
      "h' = h\<lparr>connections := (connections h)(ID (heap h a) := None),
                  connectionCount := connectionCount h - 1,
                  shardConns := (shardConns h)[sh := (shardConns h ! sh)(ID (heap h a) := None)],
                  userConnections :=
                    (if UserID (heap h a) \<noteq> []
                     then index_del (UserID (heap h a)) (ID (heap h a)) (userConnections h)
                     else userConnections h),
                  groupConnections :=
                    fold (\<lambda>k. index_del k (ID (heap h a))) groups (groupConnections h),
                  heap := (heap h)(a := (heap h a)\<lparr>Send := (Send (heap h a))\<lparr>is_closed := True\<rparr>\<rparr>),
                  logs := logs h @ [''connection unregistered'']\<rparr>"
      by blast
    then have "connections h' (ID (heap h' a)) = None" by simp
    then show ?thesis by (rule unregister_absent)
  qed
next
  fix h' assume run: "unregisterConnection a groups h = Inr h'"
    and reg: "connections h (ID (heap h a)) \<noteq> None \<and> set groups = Groups (heap h a)"
  then obtain x where x: "connections h (ID (heap h a)) = Some x" by auto
  from unregister_effect(1)[OF x run] obtain sh where
    sh: "shardIndex h (ID (heap h a)) = Inr sh" "sh < length (shardConns h)" and
    h': "h' = h\<lparr>connections := (connections h)(ID (heap h a) := None),
                  connectionCount := connectionCount h - 1,
                  shardConns := (shardConns h)[sh := (shardConns h ! sh)(ID (heap h a) := None)],
                  userConnections :=
                    (if UserID (heap h a) \<noteq> []
                     then index_del (UserID (heap h a)) (ID (heap h a)) (userConnections h)
                     else userConnections h),
                  groupConnections :=
                    fold (\<lambda>k. index_del k (ID (heap h a))) groups (groupConnections h),
                  heap := (heap h)(a := (heap h a)\<lparr>Send := (Send (heap h a))\<lparr>is_closed := True\<rparr>\<rparr>),
                  logs := logs h @ [''connection unregistered'']\<rparr>"
    by blast
  show "connections h' (ID (heap h a)) = None" by (subst h') simp
  show "(shardConns h' ! s) (ID (heap h a)) = None" if "shardIndex h (ID (heap h a)) = Inr s" for s
    using that sh by (subst h') simp
  show "ID (heap h a) \<notin> S" if "UserID (heap h a) \<noteq> []"
    "userConnections h' (UserID (heap h a)) = Some S" for S
  proof -
    from that have "index_del (UserID (heap h a)) (ID (heap h a)) (userConnections h)
                      (UserID (heap h a)) = Some S"
      by (subst (asm) h') simp
    from index_del_at[OF this] show ?thesis by simp
  qed
  show "ID (heap h a) \<notin> S" if "g \<in> Groups (heap h a)" "groupConnections h' g = Some S" for g S
  proof -
    from that(1) reg have g: "g \<in> set groups" by simp
    from that(2) have "fold (\<lambda>k. index_del k (ID (heap h a))) groups (groupConnections h) g = Some S"
      by (subst (asm) h') simp
    with fold_index_del_out[OF g, of "ID (heap h a)" "groupConnections h"] show ?thesis by simp
  qed
  show "\<not> is_closed (Send (heap h a))" by (rule unregister_effect(2)[OF x run])
  show "is_closed (Send (heap h' a))" by (subst h') simp
  show "heap h' b = heap h b" if "b \<noteq> a" for b using that by (subst h') simp
qed

lemma chat_hub_shards: "shards_ok chat_hub"
  by (simp add: shards_ok_def chat_hub_def)

theorem unregister_idempotent_witness:
  "shards_ok chat_hub \<and> \<not> is_closed (Send (heap chat_hub 10)) \<and>
   connections chat_hub (ID (heap chat_hub 10)) = Some 10 \<and>
   set [''g''] = Groups (heap chat_hub 10) \<and>
   \<not> isl (unregisterConnection 10 [''g''] chat_hub) \<and>
   unregisterConnection 10 [''g''] (projr (unregisterConnection 10 [''g''] chat_hub)) =
     Inr (projr (unregisterConnection 10 [''g''] chat_hub)) \<and>
   connections (projr (unregisterConnection 10 [''g''] chat_hub)) ''c1'' = None \<and>
   is_closed (Send (heap (projr (unregisterConnection 10 [''g''] chat_hub)) 10))"
proof -
  let ?r = "unregisterConnection 10 [''g''] chat_hub"
  have o: "\<not> is_closed (Send (heap chat_hub 10))"
    and i: "ID (heap chat_hub 10) = ''c1''"
    and c: "connections chat_hub (ID (heap chat_hub 10)) = Some 10"
    and g: "set [''g''] = Groups (heap chat_hub 10)"
    by (simp_all add: chat_hub_def idle_connection_def)
  note T = unregister_idempotent[of chat_hub 10 "[''g'']" "[''g'']"]
  from T chat_hub_shards o have r: "\<not> isl ?r" by (elim conjE) simp
  then have run: "?r = Inr (projr ?r)" by (cases ?r) simp_all
  from T have "\<forall>h'. ?r = Inr h' \<longrightarrow>
      unregisterConnection 10 [''g''] h' = Inr h' \<and>
      (connections chat_hub (ID (heap chat_hub 10)) = None \<longrightarrow> h' = chat_hub) \<and>
      (connections chat_hub (ID (heap chat_hub 10)) \<noteq> None \<and> set [''g''] = Groups (heap chat_hub 10) \<longrightarrow>
         connections h' (ID (heap chat_hub 10)) = None \<and>
         (\<forall>sh. shardIndex chat_hub (ID (heap chat_hub 10)) = Inr sh \<longrightarrow>
            (shardConns h' ! sh) (ID (heap chat_hub 10)) = None) \<and>
         (UserID (heap chat_hub 10) \<noteq> [] \<longrightarrow>
            (\<forall>S. userConnections h' (UserID (heap chat_hub 10)) = Some S \<longrightarrow> ID (heap chat_hub 10) \<notin> S)) \<and>
         (\<forall>g\<in>Groups (heap chat_hub 10).
            \<forall>S. groupConnections h' g = Some S \<longrightarrow> ID (heap chat_hub 10) \<notin> S) \<and>
         \<not> is_closed (Send (heap chat_hub 10)) \<and> is_closed (Send (heap h' 10)) \<and>
         (\<forall>b. b \<noteq> 10 \<longrightarrow> heap h' b = heap chat_hub b))"
    by (elim conjE)
  from this[rule_format, OF run] c g i
  have "unregisterConnection 10 [''g''] (projr ?r) = Inr (projr ?r)"
    "connections (projr ?r) ''c1'' = None" "is_closed (Send (heap (projr ?r) 10))"
    by simp_all
  with chat_hub_shards o c g r show ?thesis by simp
qed

subsection \<open>Inbound frames\<close>

lemma chan_hist_send_now:
  "send_ready ch r \<Longrightarrow> chan_hist (send_now x ch) = chan_hist ch @ [x]"
  by (auto simp: send_ready_def send_now_def chan_hist_def chan_put_def chan_handoff_def)

lemma post_effect:
  assumes "post m e h = Inr h'"
  shows "h' = h\<lparr>broadcast := broadcast h'\<rparr>"
    "chan_hist (broadcast h') = chan_hist (broadcast h) @ [m]"
  using assms
  by (auto simp: post_def chan_send_def chan_hist_send_now split: sum.splits if_splits)

lemma is_object_iff: "is_object d = (\<exists>kvs. d = DMap kvs)"
  by (cases d) simp_all

lemma handleChat_cases:
  "handleChat a msg e h =
     (if \<not> is_object (Data msg) then Inr (logf ''invalid chat data'' h)
      else if To msg = [] \<and> Group msg = [] then Inr (logf ''chat message without target'' h)
      else post msg e h)"
  by (cases "Data msg") (simp_all add: handleChat_def)

lemma handleNotification_cases:
  "handleNotification a msg e h =
     (if \<not> is_object (Data msg) then Inr (logf ''invalid notification data'' h)
      else post msg e h)"
  by (cases "Data msg") (simp_all add: handleNotification_def)

lemma dispatch_targeted:
  assumes "To m \<noteq> [] \<or> Group m \<noteq> []" and "dispatch m ids e g = Inr g'"
  shows "same_registry g g'"
proof -
  have loop: "same_registry g g'" if "foldE (send_one line p e) ids g = Inr g'" for line p
    by (rule foldE_rel[where R = same_registry, OF that])
      (auto intro: same_registry_trans send_one_frame(1))
  show ?thesis
  proof (cases "Marshal (stamp (clock g) m)")
    case None
    with assms(2) show ?thesis by (auto simp: dispatch_def)
  next
    case (Some p)
    show ?thesis
    proof (cases "To m \<noteq> []")
      case True
      with assms(2) Some loop show ?thesis
        by (auto simp: dispatch_def Let_def sendToUser_def split: option.splits)
    next
      case False
      with assms Some loop show ?thesis
        by (auto simp: dispatch_def Let_def sendToGroup_def split: option.splits)
    qed
  qed
qed

lemma broadcast_logf [simp]: "broadcast (logf l h) = broadcast h"
  by (simp add: logf_def)

lemma broadcast_upd_conn [simp]: "broadcast (upd_conn a f h) = broadcast h"
  by (simp add: upd_conn_def)








text \<open>
  C10. The chat handler discards a message whose data is not a JSON object, and one that
  has neither a recipient nor a group: it returns the hub as it was but for one line in
  the log, so nothing is put on the dispatch queue and no connection object changes. The
  same holds for an inbound frame that decodes to such a chat message. Whatever a chat
  frame puts on the dispatch queue has a recipient or a group, and dispatching such a
  message leaves the job queue of the broadcast workers as it was: a chat frame does not
  cause a broadcast to all connections.
\<close>

theorem chat_without_target_discarded:
  "(\<not> is_object (Data msg) \<or> (To msg = [] \<and> Group msg = []) \<longrightarrow>
      handleChat a msg e h =
        Inr (logf (if is_object (Data msg) then ''chat message without target''
                   else ''invalid chat data'') h)) \<and>
   (\<forall>m. decode_frame f = Some m \<and> Type m = ''chat'' \<longrightarrow>
      (\<not> is_object (Data m) \<or> (To m = [] \<and> Group m = []) \<longrightarrow>
         handleMessage a f e h =
           Inr (logf (if is_object (Data m) then ''chat message without target''
                      else ''invalid chat data'') h)) \<and>
      (\<forall>h'. handleMessage a f e h = Inr h' \<longrightarrow>
         broadcast h' = broadcast h \<or>
         (\<exists>p. chan_hist (broadcast h') = chan_hist (broadcast h) @ [p] \<and>
              (To p \<noteq> [] \<or> Group p \<noteq> []) \<and>
              (\<forall>ids e2 g g'. dispatch p ids e2 g = Inr g' \<longrightarrow>
                 same_registry g g' \<and> broadcastJobs g' = broadcastJobs g))))"
proof (intro conjI allI impI)
  assume "\<not> is_object (Data msg) \<or> (To msg = [] \<and> Group msg = [])"
  then show "handleChat a msg e h =
        Inr (logf (if is_object (Data msg) then ''chat message without target''
                   else ''invalid chat data'') h)"
    by (auto simp: handleChat_cases)
next
  fix m assume m: "decode_frame f = Some m \<and> Type m = ''chat''"
    and d: "\<not> is_object (Data m) \<or> (To m = [] \<and> Group m = [])"
  then show "handleMessage a f e h =
           Inr (logf (if is_object (Data m) then ''chat message without target''
                      else ''invalid chat data'') h)"
    by (auto simp: handleMessage_def handleChat_cases)
next
  fix m h' assume m: "decode_frame f = Some m \<and> Type m = ''chat''"
    and run: "handleMessage a f e h = Inr h'"
  let ?p = "m\<lparr>From := UserID (heap h a)\<rparr>"
  from m run have c: "handleChat a ?p e h = Inr h'" by (simp add: handleMessage_def)
  show "broadcast h' = broadcast h \<or>
         (\<exists>p. chan_hist (broadcast h') = chan_hist (broadcast h) @ [p] \<and>
              (To p \<noteq> [] \<or> Group p \<noteq> []) \<and>
              (\<forall>ids e2 g g'. dispatch p ids e2 g = Inr g' \<longrightarrow>
                 same_registry g g' \<and> broadcastJobs g' = broadcastJobs g))"
  proof (cases "is_object (Data m) \<and> (To m \<noteq> [] \<or> Group m \<noteq> [])")
    case False
    with c show ?thesis by (auto simp: handleChat_cases split: if_splits)
  next
    case True
    with c have p: "post ?p e h = Inr h'" by (auto simp: handleChat_cases split: if_splits)
    have t: "To ?p \<noteq> [] \<or> Group ?p \<noteq> []" using True by simp
    have "same_registry g g' \<and> broadcastJobs g' = broadcastJobs g"
      if "dispatch ?p ids e2 g = Inr g'" for ids e2 g g'
      using dispatch_targeted[OF t that] by (simp add: same_registry_fields)
    with post_effect(2)[OF p] t show ?thesis by blast
  qed
qed

lemma untargeted_decoded:
  "decode_frame (Some untargeted_frame) =
     Some \<lparr>Type = ''chat'', Data = DMap [(''text'', DStr ''hi'')], Timestamp = 0, From = [],
           To = [], Group = []\<rparr>"
  by (simp add: decode_frame_def untargeted_frame_def assign_def lower_def zero_Message_def)

theorem chat_without_target_discarded_witness:
  "decode_frame (Some untargeted_frame) =
     Some \<lparr>Type = ''chat'', Data = DMap [(''text'', DStr ''hi'')], Timestamp = 0, From = [],
           To = [], Group = []\<rparr> \<and>
   handleMessage 10 (Some untargeted_frame) quiet_env chat_hub =
     Inr (logf ''chat message without target'' chat_hub)"
proof -
  let ?m = "\<lparr>Type = ''chat'', Data = DMap [(''text'', DStr ''hi'')], Timestamp = 0, From = [],
           To = [], Group = []\<rparr>"
  note T = chat_without_target_discarded[of ?m 10 quiet_env chat_hub "Some untargeted_frame"]
  from T have "\<forall>m. decode_frame (Some untargeted_frame) = Some m \<and> Type m = ''chat'' \<longrightarrow>
      (\<not> is_object (Data m) \<or> (To m = [] \<and> Group m = []) \<longrightarrow>
         handleMessage 10 (Some untargeted_frame) quiet_env chat_hub =
           Inr (logf (if is_object (Data m) then ''chat message without target''
                      else ''invalid chat data'') chat_hub))"
    by (elim conjE) blast
  from this[rule_format, of ?m] untargeted_decoded show ?thesis by simp
qed

subsection \<open>The maximum number of connections\<close>

lemma same_count_logf [simp]: "same_count h g \<Longrightarrow> same_count h (logf l g)"
  by (simp add: same_count_def logf_def)

lemma same_count_upd_conn [simp]: "same_count h g \<Longrightarrow> same_count h (upd_conn a f g)"
  by (simp add: same_count_def upd_conn_def)

lemma same_count_groups [simp]: "same_count h g \<Longrightarrow> same_count h (g\<lparr>groupConnections := x\<rparr>)"
  by (simp add: same_count_def)

lemma sint_succ:
  assumes "sint (c :: int64) < sint (m :: int64)"
  shows "sint (c + 1) = sint c + 1"
proof -
  have "sint c + 1 < 2 ^ 63" using assms sint_lt[of m] by simp
  moreover have "- (2 ^ 63) \<le> sint c + 1" using sint_ge[of c] by simp
  ultimately show ?thesis
    by (simp add: sint_word_ariths signed_take_bit_int_eq_self)
qed

lemma sint_pred:
  assumes "0 < sint (c :: int64)"
  shows "sint (c - 1) = sint c - 1"
proof -
  have "sint c - 1 < 2 ^ 63" using sint_lt[of c] by simp
  moreover have "- (2 ^ 63) \<le> sint c - 1" using assms by simp
  ultimately show ?thesis
    by (simp add: sint_word_ariths signed_take_bit_int_eq_self)
qed

lemma register_full:
  "sint (connectionCount h) \<ge> sint (MaxConnections (config h)) \<Longrightarrow>
   registerConnection a groups h = Inr (logf ''max connections reached'' (Conn_Close a h))"
  by (simp add: registerConnection_def)

lemma fold_group_add:
  "fold (\<lambda>g x. x\<lparr>groupConnections := index_add g i (groupConnections x)\<rparr>) gs h =
   h\<lparr>groupConnections := fold (\<lambda>k. index_add k i) gs (groupConnections h)\<rparr>"
  by (induction gs arbitrary: h) simp_all

lemma register_accept:
  assumes "sint (connectionCount h) < sint (MaxConnections (config h))"
    and "registerConnection a groups h = Inr h'"
  shows "connections h' = (connections h)(ID (heap h a) \<mapsto> a)"
    "connectionCount h' = connectionCount h + 1" "config h' = config h"
  using assms
  by (auto simp: registerConnection_def Let_def shard_update_def fold_group_add logf_def
      split: sum.splits if_splits)

lemma unregister_count:
  assumes "unregisterConnection a groups h = Inr h'"
  shows "config h' = config h"
    "connections h (ID (heap h a)) = None \<Longrightarrow> h' = h"
    "connections h (ID (heap h a)) \<noteq> None \<Longrightarrow>
       connections h' = (connections h)(ID (heap h a) := None) \<and>
       connectionCount h' = connectionCount h - 1"
proof -
  show "connections h (ID (heap h a)) = None \<Longrightarrow> h' = h"
    using assms by (simp add: unregister_absent)
  show "config h' = config h"
  proof (cases "connections h (ID (heap h a))")
    case None
    with assms show ?thesis by (simp add: unregister_absent)
  next
    case (Some x)
    from unregister_effect(1)[OF Some assms] obtain sh where
      "h' = h\<lparr>connections := (connections h)(ID (heap h a) := None),
                  connectionCount := connectionCount h - 1,
                  shardConns := (shardConns h)[sh := (shardConns h ! sh)(ID (heap h a) := None)],
                  userConnections :=
                    (if UserID (heap h a) \<noteq> []
                     then index_del (UserID (heap h a)) (ID (heap h a)) (userConnections h)
                     else userConnections h),
                  groupConnections :=
                    fold (\<lambda>k. index_del k (ID (heap h a))) groups (groupConnections h),
                  heap := (heap h)(a := (heap h a)\<lparr>Send := (Send (heap h a))\<lparr>is_closed := True\<rparr>\<rparr>),
                  logs := logs h @ [''connection unregistered'']\<rparr>" by blast
    then show ?thesis by simp
  qed
  show "connections h' = (connections h)(ID (heap h a) := None) \<and>
       connectionCount h' = connectionCount h - 1" if "connections h (ID (heap h a)) \<noteq> None"
  proof -
    from that obtain x where x: "connections h (ID (heap h a)) = Some x" by auto
    from unregister_effect(1)[OF x assms] obtain sh where
      "h' = h\<lparr>connections := (connections h)(ID (heap h a) := None),
                  connectionCount := connectionCount h - 1,
                  shardConns := (shardConns h)[sh := (shardConns h ! sh)(ID (heap h a) := None)],
                  userConnections :=
                    (if UserID (heap h a) \<noteq> []
                     then index_del (UserID (heap h a)) (ID (heap h a)) (userConnections h)
                     else userConnections h),
                  groupConnections :=
                    fold (\<lambda>k. index_del k (ID (heap h a))) groups (groupConnections h),
                  heap := (heap h)(a := (heap h a)\<lparr>Send := (Send (heap h a))\<lparr>is_closed := True\<rparr>\<rparr>),
                  logs := logs h @ [''connection unregistered'']\<rparr>" by blast
    then show ?thesis by simp
  qed
qed

lemma enqueue_count: "enqueueBroadcastAll p e h = Inr h' \<Longrightarrow> same_count h h'"
  unfolding enqueueBroadcastAll_def
  by (rule foldE_rel[where R = same_count])
    (auto intro: same_count_trans simp: enqueue_job_def same_count_def logf_def
      split: sum.splits option.splits)

lemma send_loop_registry:
  "foldE (send_one line p e) ids g = Inr g' \<Longrightarrow> same_registry g g'"
  by (rule foldE_rel[where R = same_registry])
    (auto intro: same_registry_trans send_one_frame(1))

lemma dispatch_count: "dispatch m ids e h = Inr h' \<Longrightarrow> same_count h h'"
proof -
  assume run: "dispatch m ids e h = Inr h'"
  show ?thesis
  proof (cases "To m \<noteq> [] \<or> Group m \<noteq> []")
    case True
    from dispatch_targeted[OF True run] show ?thesis by (rule same_registry_count)
  next
    case False
    with run show ?thesis
      by (auto simp: dispatch_def Let_def split: option.splits intro: enqueue_count)
  qed
qed

lemma tick_count: "tick ids e h = Inr h' \<Longrightarrow> same_count h h'"
proof -
  assume "tick ids e h = Inr h'"
  from tick_is_scan[OF this] obtain h1 where
    h1: "h1 = h\<lparr>pingJobs := pingJobs h1\<rparr>" and h': "h' = checkHeartbeats ids h1" by blast
  have "same_count h h1" by (subst h1) (simp add: same_count_def)
  moreover have "same_count h1 h'"
    unfolding h' checkHeartbeats_def using check_loop[of h1 "clock h1" ids]
    by (simp add: same_registry_count)
  ultimately show ?thesis by (rule same_count_trans)
qed

lemma reply_count: "reply a r e h = Inr h' \<Longrightarrow> same_count h h'"
  using reply_frame(1)[of a r e h h'] by (simp add: same_registry_count)

lemma post_count: "post m e h = Inr h' \<Longrightarrow> same_count h h'"
  by (auto simp: post_def same_count_def split: sum.splits)

lemma reply_after:
  assumes "reply a r e g = Inr g'" "same_count h g"
  shows "same_count h g'"
  using same_count_trans[OF assms(2) reply_count[OF assms(1)]] .

lemma handlePing_count: "handlePing a e h = Inr h' \<Longrightarrow> same_count h h'"
  unfolding handlePing_def by (erule reply_after) simp

lemma handleStatus_count: "handleStatus a m e h = Inr h' \<Longrightarrow> same_count h h'"
  unfolding handleStatus_def by (erule reply_after) (simp split: dyn.splits)

lemma handleJoinGroup_count: "handleJoinGroup a m e h = Inr h' \<Longrightarrow> same_count h h'"
proof (cases "Data m")
  case (DStr G)
  assume run: "handleJoinGroup a m e h = Inr h'"
  let ?h1 = "upd_conn a (\<lambda>c. c\<lparr>Groups := insert G (Groups c)\<rparr>) h"
  let ?h2 = "?h1\<lparr>groupConnections := index_add G (ID (heap ?h1 a)) (groupConnections ?h1)\<rparr>"
  from run DStr obtain h3 r where r: "reply a r e ?h2 = Inr h3"
    and h': "h' = logf ''user joined group'' h3"
    by (auto simp: handleJoinGroup_def Let_def split: sum.splits)
  have "same_count h ?h2" by simp
  from reply_after[OF r this] h' show ?thesis by simp
qed (auto simp: handleJoinGroup_def)

lemma handleLeaveGroup_count: "handleLeaveGroup a m e h = Inr h' \<Longrightarrow> same_count h h'"
proof (cases "Data m")
  case (DStr G)
  assume run: "handleLeaveGroup a m e h = Inr h'"
  let ?h1 = "upd_conn a (\<lambda>c. c\<lparr>Groups := Groups c - {G}\<rparr>) h"
  let ?h2 = "?h1\<lparr>groupConnections := index_del G (ID (heap ?h1 a)) (groupConnections ?h1)\<rparr>"
  from run DStr obtain h3 r where r: "reply a r e ?h2 = Inr h3"
    and h': "h' = logf ''user left group'' h3"
    by (auto simp: handleLeaveGroup_def Let_def split: sum.splits)
  have "same_count h ?h2" by simp
  from reply_after[OF r this] h' show ?thesis by simp
qed (auto simp: handleLeaveGroup_def)

lemma handleChat_count: "handleChat a m e h = Inr h' \<Longrightarrow> same_count h h'"
  by (auto simp: handleChat_cases split: if_splits intro: post_count)

lemma handleNotification_count: "handleNotification a m e h = Inr h' \<Longrightarrow> same_count h h'"
  by (auto simp: handleNotification_cases split: if_splits intro: post_count)

lemma handleMessage_count: "handleMessage a f e h = Inr h' \<Longrightarrow> same_count h h'"
  by (auto simp: handleMessage_def Let_def split: option.splits if_splits
      intro: handlePing_count handleStatus_count handleJoinGroup_count handleLeaveGroup_count
        handleChat_count handleNotification_count)

lemma broadcastWorker_count: "broadcastWorker j ids e h = Inr h' \<Longrightarrow> same_count h h'"
proof -
  assume run: "broadcastWorker j ids e h = Inr h'"
  have one: "same_registry t t'" if "broadcast_one p e sh x t = Inr t'" for p sh x t t'
    using that trySend_frame(1)[of _ p _ _ t t']
    by (auto simp: broadcast_one_def split: option.splits if_splits)
  have "same_registry h h'" if "foldE (broadcast_one p e sh) ids h = Inr h'" for p sh
    by (rule foldE_rel[where R = same_registry, OF that])
      (auto intro: same_registry_trans one)
  with run show ?thesis
    by (auto simp: broadcastWorker_def split: if_splits intro: same_registry_count)
qed

lemma Close_count: "same_count h (Close ids h)"
proof -
  have "same_count h (fold (\<lambda>connID x. case connections x connID of Some a \<Rightarrow> Conn_Close a x | None \<Rightarrow> x) ids g)"
    if "same_count h g" for g
    using that
    by (induction ids arbitrary: g) (auto simp: Conn_Close_def split: option.splits)
  from this[of "h\<lparr>ctx_done := True\<rparr>"] show ?thesis
    by (simp add: Close_def same_count_def logf_def)
qed

lemma within_capacity_same:
  "same_count h h' \<Longrightarrow> within_capacity h \<Longrightarrow> within_capacity h'"
  by (simp add: same_count_def within_capacity_def)

lemma NewHub_capacity: "NewHub c store now = Inr h \<Longrightarrow> within_capacity h"
  by (auto simp: NewHub_def Let_def within_capacity_def split: sum.splits if_splits)

lemma register_capacity:
  assumes "registerConnection a groups h = Inr h'" "within_capacity h"
  shows "within_capacity h'"
proof (cases "sint (connectionCount h) \<ge> sint (MaxConnections (config h))")
  case True
  from register_full[OF True, of a groups] assms(1)
  have "h' = logf ''max connections reached'' (Conn_Close a h)" by simp
  then have "same_count h h'" by (simp add: Conn_Close_def)
  then show ?thesis using assms(2) by (rule within_capacity_same)
next
  case False
  then have lt: "sint (connectionCount h) < sint (MaxConnections (config h))" by simp
  note A = register_accept[OF lt assms(1)]
  have fin: "finite (dom (connections h))" using assms(2) by (simp add: within_capacity_def)
  have "card (dom (connections h')) \<le> card (dom (connections h)) + 1"
    using fin by (simp add: A(1) card_insert_if)
  moreover have "sint (connectionCount h') = sint (connectionCount h) + 1"
    using sint_succ[OF lt] by (simp add: A(2))
  ultimately show ?thesis
    using assms(2) lt fin by (simp add: within_capacity_def A)
qed

lemma unregister_capacity:
  assumes "unregisterConnection a groups h = Inr h'" "within_capacity h"
  shows "within_capacity h'"
proof (cases "connections h (ID (heap h a))")
  case None
  with unregister_count(2)[OF assms(1)] assms(2) show ?thesis by simp
next
  case (Some x)
  then have ne: "connections h (ID (heap h a)) \<noteq> None" by simp
  note U = unregister_count(3)[OF assms(1) ne] unregister_count(1)[OF assms(1)]
  have fin: "finite (dom (connections h))" using assms(2) by (simp add: within_capacity_def)
  have mem: "ID (heap h a) \<in> dom (connections h)" using Some by auto
  then have pos: "0 < card (dom (connections h))" using fin by (auto simp: card_gt_0_iff)
  have c: "card (dom (connections h')) = card (dom (connections h)) - 1"
    using U(1) fin mem by simp
  from pos assms(2) have "0 < sint (connectionCount h)" by (simp add: within_capacity_def)
  from sint_pred[OF this] U(1)
  have "sint (connectionCount h') = sint (connectionCount h) - 1" by simp
  with c pos assms(2) fin U show ?thesis by (simp add: within_capacity_def)
qed

lemma reachable_capacity: "reachable h \<Longrightarrow> within_capacity h"
proof (induction rule: reachable.induct)
  case (start c store now h)
  then show ?case by (rule NewHub_capacity)
next
  case (register h a groups h')
  then show ?case by (simp add: register_capacity)
next
  case (unregister h a groups h')
  then show ?case by (simp add: unregister_capacity)
next
  case (received h)
  then show ?case by (simp add: within_capacity_def)
next
  case (dispatched h msg ids e h')
  then show ?case using within_capacity_same[OF dispatch_count] by blast
next
  case (ticked h ids e h')
  then show ?case using within_capacity_same[OF tick_count] by blast
next
  case (frame h a fr e h')
  then show ?case using within_capacity_same[OF handleMessage_count] by blast
next
  case (posted h msg e h')
  then show ?case using within_capacity_same[OF post_count] by blast
next
  case (job_taken h)
  then show ?case by (simp add: within_capacity_def)
next
  case (worked h job ids e h')
  then show ?case using within_capacity_same[OF broadcastWorker_count] by blast
next
  case (surroundings h store now)
  then show ?case by (simp add: within_capacity_def)
next
  case (closed h ids)
  then show ?case using within_capacity_same[OF Close_count] by blast
qed

text \<open>
  C1. When the counter has reached the configured maximum, registering a connection closes
  that connection's transport, writes a line to the log and returns: the connection map,
  the user index, the group index, the shard table and the counter are as they were, and
  no other connection object changes. Consequently, in every state a hub goes through, the
  number of entries of the connection map is at most the counter, and the counter is at
  most the configured maximum (a negative maximum admits no connection at all: the counter
  stays zero).
\<close>

theorem capacity_enforced:
  "(sint (connectionCount h) \<ge> sint (MaxConnections (config h)) \<longrightarrow>
      registerConnection a groups h = Inr (logf ''max connections reached'' (Conn_Close a h)) \<and>
      connections (Conn_Close a h) = connections h \<and>
      userConnections (Conn_Close a h) = userConnections h \<and>
      groupConnections (Conn_Close a h) = groupConnections h \<and>
      shardConns (Conn_Close a h) = shardConns h \<and>
      connectionCount (Conn_Close a h) = connectionCount h \<and>
      same_registry h (logf ''max connections reached'' (Conn_Close a h)) \<and>
      heap (logf ''max connections reached'' (Conn_Close a h)) =
        (heap h)(a := (heap h a)\<lparr>Conn := Closed\<rparr>)) \<and>
   (reachable h \<longrightarrow>
      finite (dom (connections h)) \<and>
      int (card (dom (connections h))) \<le> sint (connectionCount h) \<and>
      sint (connectionCount h) \<le> max 0 (sint (MaxConnections (config h))) \<and>
      (0 \<le> sint (MaxConnections (config h)) \<longrightarrow>
         int (card (dom (connections h))) \<le> sint (MaxConnections (config h))))"
proof (intro conjI impI)
  assume "sint (connectionCount h) \<ge> sint (MaxConnections (config h))"
  then show "registerConnection a groups h =
      Inr (logf ''max connections reached'' (Conn_Close a h))"
    by (rule register_full)
next
  assume "reachable h"
  then have w: "within_capacity h" by (rule reachable_capacity)
  then show "finite (dom (connections h))"
    "int (card (dom (connections h))) \<le> sint (connectionCount h)"
    "sint (connectionCount h) \<le> max 0 (sint (MaxConnections (config h)))"
    by (simp_all add: within_capacity_def)
  assume "0 \<le> sint (MaxConnections (config h))"
  with w show "int (card (dom (connections h))) \<le> sint (MaxConnections (config h))"
    by (simp add: within_capacity_def)
qed (simp_all add: Conn_Close_def upd_conn_def logf_def same_registry_def)


lemma new_hub_ok:
  "NewHub (Some chat_config) store0 0 = Inr (projr (NewHub (Some chat_config) store0 0))"
  by (simp add: NewHub_def chat_config_def DefaultConfig_def make_chan_def Let_def)

lemma new_hub_facts:
  "connectionCount (projr (NewHub (Some chat_config) store0 0)) = 0"
  "config (projr (NewHub (Some chat_config) store0 0)) = chat_config"
  "shardCount (projr (NewHub (Some chat_config) store0 0)) = 1"
  "shardConns (projr (NewHub (Some chat_config) store0 0)) = [Map.empty]"
  "connections (projr (NewHub (Some chat_config) store0 0)) = Map.empty"
  by (simp_all add: NewHub_def chat_config_def DefaultConfig_def make_chan_def Let_def)

lemma chat_config_max: "MaxConnections chat_config = 100000"
  by (simp add: chat_config_def DefaultConfig_def)

lemma one_hub_registered:
  "registerConnection 10 []
       ((projr (NewHub (Some chat_config) store0 0))
          \<lparr>heap := store0(10 := idle_connection ''c1'' ''u1'' {}), clock := 5\<rparr>) = Inr one_hub"
  "connections one_hub ''c1'' = Some 10"
  "config one_hub = chat_config"
  by (simp_all add: one_hub_def registerConnection_def new_hub_facts Let_def shardIndex_def
      shard_update_def idle_connection_def index_add_def logf_def chat_config_max)

lemma one_hub_reachable: "reachable one_hub"
  by (rule reachable.register[OF reachable.surroundings[OF reachable.start[OF new_hub_ok]]
        one_hub_registered(1)])

theorem capacity_enforced_witness:
  "sint (connectionCount crowded_hub) \<ge> sint (MaxConnections (config crowded_hub)) \<and>
   registerConnection 13 [] crowded_hub =
     Inr (logf ''max connections reached'' (Conn_Close 13 crowded_hub)) \<and>
   reachable one_hub \<and> connections one_hub ''c1'' = Some 10 \<and>
   0 \<le> sint (MaxConnections (config one_hub)) \<and>
   int (card (dom (connections one_hub))) \<le> sint (MaxConnections (config one_hub))"
proof -
  have full: "sint (connectionCount crowded_hub) \<ge> sint (MaxConnections (config crowded_hub))"
    by (simp add: crowded_hub_def chat_hub_def)
  have pos: "0 \<le> sint (MaxConnections (config one_hub))"
    by (simp add: one_hub_registered(3) chat_config_max)
  from capacity_enforced[of crowded_hub 13 "[]"] full
  have "registerConnection 13 [] crowded_hub =
     Inr (logf ''max connections reached'' (Conn_Close 13 crowded_hub))" by blast
  moreover from capacity_enforced[of one_hub 13 "[]"] one_hub_reachable pos
  have "int (card (dom (connections one_hub))) \<le> sint (MaxConnections (config one_hub))"
    by blast
  ultimately show ?thesis using full pos one_hub_reachable one_hub_registered(2) by blast
qed

subsection \<open>The example hub is a state a hub goes through\<close>

lemma chat_config_fields:
  "MaxConnections chat_config = 100000" "MessageQueueSize chat_config = 1000"
  "ShardCount chat_config = 1" "BroadcastWorkerCount chat_config = 32"
  "EnableGlobalPing chat_config = False" "HeartbeatInterval chat_config = 30000000000"
  "DropOnFull chat_config = True"
  by (simp_all add: chat_config_def DefaultConfig_def)

lemma chat_hub_step0:
  "NewHub (Some chat_config) store0 0 =
     Inr (chat_hub\<lparr>connections := Map.empty, userConnections := Map.empty,
                    groupConnections := Map.empty, connectionCount := 0,
                    shardConns := [Map.empty], heap := store0, logs := []\<rparr>)"
  by (simp add: NewHub_def chat_config_fields make_chan_def Let_def chat_hub_def)

lemma chat_hub_step1:
  "registerConnection 10 []
     (chat_hub\<lparr>connections := Map.empty, userConnections := Map.empty,
                groupConnections := Map.empty, connectionCount := 0,
                shardConns := [Map.empty], heap := chat_store, logs := []\<rparr>) =
   Inr (chat_hub\<lparr>connections := [''c1'' \<mapsto> 10], userConnections := [''u1'' \<mapsto> {''c1''}],
                   groupConnections := Map.empty, connectionCount := 1,
                   shardConns := [[''c1'' \<mapsto> 10]], heap := chat_store,
                   logs := [''connection registered'']\<rparr>)"
  by (simp add: registerConnection_def chat_hub_def chat_config_fields chat_store_def
      idle_connection_def shardIndex_def shard_update_def index_add_def logf_def Let_def)

lemma chat_hub_step2:
  "registerConnection 11 []
     (chat_hub\<lparr>connections := [''c1'' \<mapsto> 10], userConnections := [''u1'' \<mapsto> {''c1''}],
                   groupConnections := Map.empty, connectionCount := 1,
                   shardConns := [[''c1'' \<mapsto> 10]], heap := chat_store,
                   logs := [''connection registered'']\<rparr>) =
   Inr (chat_hub\<lparr>connections := [''c1'' \<mapsto> 10, ''c2'' \<mapsto> 11],
                   userConnections := [''u1'' \<mapsto> {''c1'', ''c2''}],
                   groupConnections := Map.empty, connectionCount := 2,
                   shardConns := [[''c1'' \<mapsto> 10, ''c2'' \<mapsto> 11]], heap := chat_store,
                   logs := [''connection registered'', ''connection registered'']\<rparr>)"
  by (simp add: registerConnection_def chat_hub_def chat_config_fields chat_store_def
      idle_connection_def shardIndex_def shard_update_def index_add_def logf_def Let_def
      insert_commute)

lemma chat_hub_step3:
  "registerConnection 12 []
     (chat_hub\<lparr>connections := [''c1'' \<mapsto> 10, ''c2'' \<mapsto> 11],
                   userConnections := [''u1'' \<mapsto> {''c1'', ''c2''}],
                   groupConnections := Map.empty, connectionCount := 2,
                   shardConns := [[''c1'' \<mapsto> 10, ''c2'' \<mapsto> 11]], heap := chat_store,
                   logs := [''connection registered'', ''connection registered'']\<rparr>) =
   Inr (chat_hub\<lparr>groupConnections := Map.empty, heap := chat_store,
                   logs := [''connection registered'', ''connection registered'',
                            ''connection registered'']\<rparr>)"
  by (simp add: registerConnection_def chat_hub_def chat_config_fields chat_store_def
      idle_connection_def shardIndex_def shard_update_def index_add_def logf_def Let_def)

lemma chat_hub_step4:
  "handleMessage 10 (Some join_frame) quiet_env
     (chat_hub\<lparr>groupConnections := Map.empty, heap := chat_store,
                   logs := [''connection registered'', ''connection registered'',
                            ''connection registered'']\<rparr>) =
   Inr (chat_hub\<lparr>heap := chat_store(10 := (idle_connection ''c1'' ''u1'' {''g''})
                      \<lparr>Send := chan_put (marshal_ignoring_error
                          (zero_Message\<lparr>Type := ''group_joined'', Data := DStr ''g'',
                                          Timestamp := time_Unix 0\<rparr>))
                          (Send (idle_connection ''c1'' ''u1'' {''g''}))\<rparr>)\<rparr>)"
  by (simp add: handleMessage_def decode_frame_def join_frame_def assign_def lower_def
      zero_Message_def handleJoinGroup_def Let_def upd_conn_def chat_hub_def chat_store_def
      idle_connection_def index_add_def reply_def select_send_default_def send_ready_def
      send_now_def quiet_env_def logf_def fun_upd_twist)

lemma chat_hub_reachable: "reachable chat_hub"
proof -
  note r0 = reachable.start[OF chat_hub_step0]
  note r0' = reachable.surroundings[OF r0, where store = chat_store and now = 0]
  have e0: "chat_hub\<lparr>connections := Map.empty, userConnections := Map.empty,
                    groupConnections := Map.empty, connectionCount := 0,
                    shardConns := [Map.empty], heap := store0, logs := []\<rparr>
              \<lparr>heap := chat_store, clock := 0\<rparr> =
            chat_hub\<lparr>connections := Map.empty, userConnections := Map.empty,
                groupConnections := Map.empty, connectionCount := 0,
                shardConns := [Map.empty], heap := chat_store, logs := []\<rparr>"
    by (simp add: chat_hub_def)
  note r1 = reachable.register[OF r0'[unfolded e0] chat_hub_step1]
  note r2 = reachable.register[OF r1 chat_hub_step2]
  note r3 = reachable.register[OF r2 chat_hub_step3]
  note r4 = reachable.frame[OF r3 chat_hub_step4]
  note r5 = reachable.surroundings[OF r4, where store = "heap chat_hub" and now = 0]
  have "chat_hub\<lparr>heap := chat_store(10 := (idle_connection ''c1'' ''u1'' {''g''})
                      \<lparr>Send := chan_put (marshal_ignoring_error
                          (zero_Message\<lparr>Type := ''group_joined'', Data := DStr ''g'',
                                          Timestamp := time_Unix 0\<rparr>))
                          (Send (idle_connection ''c1'' ''u1'' {''g''}))\<rparr>)\<rparr>
          \<lparr>heap := heap chat_hub, clock := 0\<rparr> = chat_hub"
    by (simp add: chat_hub_def)
  with r5 show ?thesis by simp
qed

subsection \<open>Registration keeps the indexes consistent\<close>

text \<open>
  Registering a connection whose ID is not yet in the registry keeps the registry keyed by
  connection ID and keeps the per-user index in step with the registry, whether the
  connection is admitted or turned away at capacity.
\<close>

lemma register_accept_fields:
  assumes "sint (connectionCount h) < sint (MaxConnections (config h))"
    and "registerConnection a groups h = Inr h'"
  shows "heap h' = heap h"
    "userConnections h' =
       (if UserID (heap h a) \<noteq> []
        then index_add (UserID (heap h a)) (ID (heap h a)) (userConnections h)
        else userConnections h)"
  using assms
  by (auto simp: registerConnection_def Let_def shard_update_def fold_group_add logf_def
      split: sum.splits if_splits)

lemma register_keeps_indexes:
  assumes k: "keyed_by_ID h" and u: "user_index_ok h"
    and fresh: "connections h (ID (heap h a)) = None"
    and run: "registerConnection a groups h = Inr h'"
  shows "keyed_by_ID h' \<and> user_index_ok h'"
proof (cases "sint (connectionCount h) \<ge> sint (MaxConnections (config h))")
  case True
  from register_full[OF True, of a groups] run
  have h': "h' = logf ''max connections reached'' (Conn_Close a h)" by simp
  have c: "connections h' = connections h" "userConnections h' = userConnections h"
    by (simp_all add: h' logf_def Conn_Close_def upd_conn_def)
  have i1: "ID (heap h' b) = ID (heap h b)" for b
    by (simp add: h' logf_def Conn_Close_def upd_conn_def)
  have i2: "UserID (heap h' b) = UserID (heap h b)" for b
    by (simp add: h' logf_def Conn_Close_def upd_conn_def)
  have "keyed_by_ID h'" using k by (simp add: keyed_by_ID_def c i1)
  moreover have "user_index_ok h' = user_index_ok h"
    by (simp add: user_index_ok_def c i2 cong: option.case_cong)
  with u have "user_index_ok h'" by simp
  ultimately show ?thesis by simp
next
  case False
  then have lt: "sint (connectionCount h) < sint (MaxConnections (config h))" by simp
  note A = register_accept[OF lt run] register_accept_fields[OF lt run]
  let ?c = "heap h a"
  have keyed: "keyed_by_ID h'"
    using k by (auto simp: keyed_by_ID_def A split: if_splits)
  have "(case userConnections h' v of None \<Rightarrow> False | Some S \<Rightarrow> i \<in> S) =
        (v \<noteq> [] \<and> (case connections h' i of None \<Rightarrow> False | Some b \<Rightarrow> UserID (heap h' b) = v))"
    for v i
  proof (cases "i = ID ?c")
    case True
    have old: "\<not> (case userConnections h v of None \<Rightarrow> False | Some S \<Rightarrow> ID ?c \<in> S)"
      using user_index_okD[OF u, where u = v and i = "ID ?c"] fresh by simp
    show ?thesis
      using old True by (auto simp: A index_add_def split: option.splits if_splits)
  next
    case ne: False
    have "(case userConnections h' v of None \<Rightarrow> False | Some S \<Rightarrow> i \<in> S) =
          (case userConnections h v of None \<Rightarrow> False | Some S \<Rightarrow> i \<in> S)"
      using ne by (auto simp: A index_add_def split: option.splits if_splits)
    moreover have "connections h' i = connections h i"
      using ne by (simp add: A)
    ultimately show ?thesis
      using user_index_okD[OF u, where u = v and i = i]
      by (simp add: A(4) cong: option.case_cong)
  qed
  then have "user_index_ok h'" by (simp add: user_index_ok_def)
  with keyed show ?thesis by simp
qed

end
